theory Spec2Isabelle
  imports Complex_Main "HOL-Library.Word"
begin

unbundle bit_operations_syntax

section \<open>Machine data\<close>

text \<open>
  The converter is written for the Microsoft compiler on x86 (\<open>stdafx.h\<close>,
  \<open>intrin.h\<close>, \<open>windows.h\<close>): \<open>unsigned short\<close> is 16 bits, \<open>int\<close>,
  \<open>unsigned int\<close> and \<open>long\<close> are 32 bits, \<open>uint64_t\<close> is 64 bits, and
  integers lie in memory and in files least significant byte first.
\<close>

type_synonym byte = "8 word"
type_synonym u16 = "16 word"
type_synonym u32 = "32 word"
type_synonym u64 = "64 word"

definition byte_of_char :: "char \<Rightarrow> byte" where
  "byte_of_char c = of_nat (of_char c)"

definition bytes_of :: "string \<Rightarrow> byte list" where
  "bytes_of cs = map byte_of_char cs"

text \<open>The in-memory image of a 16-bit and of a 32-bit integer, and back.\<close>

definition le16 :: "u16 \<Rightarrow> byte list" where
  "le16 w = [ucast w, ucast (drop_bit 8 w)]"

definition le32 :: "u32 \<Rightarrow> byte list" where
  "le32 w = [ucast w, ucast (drop_bit 8 w), ucast (drop_bit 16 w), ucast (drop_bit 24 w)]"

definition rd16 :: "byte list \<Rightarrow> u16" where
  "rd16 bs = ucast (bs ! 0) OR push_bit 8 (ucast (bs ! 1))"

definition rd32 :: "byte list \<Rightarrow> u32" where
  "rd32 bs = ucast (bs ! 0) OR push_bit 8 (ucast (bs ! 1))
               OR push_bit 16 (ucast (bs ! 2)) OR push_bit 24 (ucast (bs ! 3))"

text \<open>
  \<open>_byteswap_ushort\<close> and \<open>_byteswap_ulong\<close> of \<open>intrin.h\<close> reverse the
  order of the bytes of their argument.
\<close>

definition byteswap_ushort :: "u16 \<Rightarrow> u16" where
  "byteswap_ushort w = rd16 (rev (le16 w))"

definition byteswap_ulong :: "u32 \<Rightarrow> u32" where
  "byteswap_ulong w = rd32 (rev (le32 w))"

text \<open>\<open>fwrite(&v, sizeof(v), 1, out)\<close> appends the memory image of \<open>v\<close>.\<close>

definition fwrite16 :: "u16 \<Rightarrow> byte list" where
  "fwrite16 w = le16 w"

definition fwrite32 :: "u32 \<Rightarrow> byte list" where
  "fwrite32 w = le32 w"

text \<open>Big-endian fields of a written file, read back at a byte offset.\<close>

definition readBE16 :: "byte list \<Rightarrow> nat \<Rightarrow> u16" where
  "readBE16 bs off = rd16 (rev (take 2 (drop off bs)))"

definition readBE32 :: "byte list \<Rightarrow> nat \<Rightarrow> u32" where
  "readBE32 bs off = rd32 (rev (take 4 (drop off bs)))"

section \<open>The input stream\<close>

text \<open>
  A \<open>FILE*\<close> opened with \<open>"rb"\<close>: the bytes of the file and the position of the
  stream. Offsets are natural numbers; a position past the end is legal and every read
  there is short.
\<close>

record FILE' =
  contents :: "byte list"
  pos :: nat

text \<open>
  \<open>fread(buf, size, 1, f)\<close>: the bytes that are there overwrite the front of the
  buffer, the rest of the buffer keeps what it held, the stream advances by what was read,
  and the result is 1 only for a complete element.
\<close>

definition fread :: "byte list \<Rightarrow> nat \<Rightarrow> FILE' \<Rightarrow> nat \<times> byte list \<times> FILE'" where
  "fread buf size' f =
     (let got = take size' (drop (pos f) (contents f))
      in (if length got = size' then 1 else 0,
          got @ drop (length got) buf,
          f\<lparr>pos := pos f + length got\<rparr>))"

definition fread16 :: "u16 \<Rightarrow> FILE' \<Rightarrow> nat \<times> u16 \<times> FILE'" where
  "fread16 old f = (case fread (le16 old) 2 f of (n, bs, f') \<Rightarrow> (n, rd16 bs, f'))"

definition fread32 :: "u32 \<Rightarrow> FILE' \<Rightarrow> nat \<times> u32 \<times> FILE'" where
  "fread32 old f = (case fread (le32 old) 4 f of (n, bs, f') \<Rightarrow> (n, rd32 bs, f'))"

definition fseek_set :: "FILE' \<Rightarrow> nat \<Rightarrow> FILE'" where
  "fseek_set f off = f\<lparr>pos := off\<rparr>"

text \<open>
  \<open>fseek(f, off, SEEK_CUR)\<close> takes a signed \<open>long\<close>; a seek to before the start of
  the file fails and leaves the stream where it is.
\<close>

definition fseek_cur :: "FILE' \<Rightarrow> int \<Rightarrow> FILE'" where
  "fseek_cur f off = (if int (pos f) + off < 0 then f else f\<lparr>pos := nat (int (pos f) + off)\<rparr>)"

section \<open>The encoder object\<close>

text \<open>
  The fields of \<open>class ASTInfo\<close>. \<open>blockSize\<close> is initialised to 10080 in the
  class and never assigned, so it is a constant here.
\<close>

record ASTInfo =
  filename :: string
  customSampleRate :: u32
  sampleRate :: u32
  numChannels :: u16
  numSamples :: u32
  isLooped :: u16
  loopStart :: u32
  astSize :: u32
  wavSize :: u32
  excBlkSz :: u32
  numBlocks :: u32
  padding :: u32

definition blockSize :: u32 where
  "blockSize = 10080"

section \<open>Writing the header\<close>

definition printHeader :: "ASTInfo \<Rightarrow> byte list" where
  "printHeader s =
     bytes_of ''STRM''
     @ fwrite32 (byteswap_ulong (astSize s))
     @ fwrite32 268435712
     @ fwrite16 (byteswap_ushort (numChannels s))
     @ fwrite16 (isLooped s)
     @ fwrite32 (byteswap_ulong (customSampleRate s))
     @ fwrite32 (byteswap_ulong (numSamples s))
     @ fwrite32 (byteswap_ulong (loopStart s))
     @ fwrite32 (byteswap_ulong (numSamples s))
     @ fwrite32 (if numBlocks s = 1 then byteswap_ulong (excBlkSz s + padding s)
                 else byteswap_ulong blockSize)
     @ fwrite32 0
     @ fwrite32 127
     @ concat (replicate 5 (fwrite32 0))"

section \<open>Writing the audio blocks\<close>

text \<open>
  The scratch buffer \<open>block\<close> is an array of 16-bit elements. \<open>fread\<close> stores the
  bytes it gets into the front of the array; an odd last byte replaces the low byte of
  its element, and what was not reached keeps its old value.
\<close>

fun storeBytes :: "byte list \<Rightarrow> u16 list \<Rightarrow> u16 list" where
  "storeBytes (b0 # b1 # bs) (w # ws) = rd16 [b0, b1] # storeBytes bs ws"
| "storeBytes [b0] (w # ws) = rd16 [b0, ucast (drop_bit 8 w)] # ws"
| "storeBytes bs ws = ws"

definition freadBlock :: "u16 list \<Rightarrow> nat \<Rightarrow> FILE' \<Rightarrow> u16 list \<times> FILE'" where
  "freadBlock block len f =
     (let got = take len (drop (pos f) (contents f))
      in (storeBytes got block, f\<lparr>pos := pos f + length got\<rparr>))"

text \<open>
  \<open>for (z; z < length / 2; z += offset) fwrite(&block[z], 2, 1, out)\<close>. The loop is
  entered from the channel loop only, where \<open>y < numChannels = offset\<close>, so the
  stride is positive there.
\<close>

function chanLoop :: "u16 list \<Rightarrow> nat \<Rightarrow> nat \<Rightarrow> nat \<Rightarrow> byte list" where
  "chanLoop block z n offset =
     (if z < n \<and> 0 < offset then fwrite16 (block ! z) @ chanLoop block (z + offset) n offset
      else [])"
  by pat_completeness auto
termination
  by (relation "measure (\<lambda>(block, z, n, offset). n - z)") auto

text \<open>\<open>for (z = 0; z < padding; z += 2) fwrite(&zeroPad, 2, 1, out)\<close>\<close>

function padLoop :: "nat \<Rightarrow> nat \<Rightarrow> byte list" where
  "padLoop z p = (if z < p then fwrite16 0 @ padLoop (z + 2) p else [])"
  by pat_completeness auto
termination
  by (relation "measure (\<lambda>(z, p). p - z)") auto

text \<open>
  Lines 531 and 532: the first \<open>n\<close> elements of the buffer are byte-swapped in place.
\<close>

definition swapBlock :: "u16 list \<Rightarrow> nat \<Rightarrow> u16 list" where
  "swapBlock block n = map byteswap_ushort (take n block) @ drop n block"

text \<open>
  Lines 534 to 543: for every channel \<open>y\<close> the channel loop, and after it, in the last
  block, the padding loop.
\<close>

definition writeChannels :: "u16 list \<Rightarrow> nat \<Rightarrow> nat \<Rightarrow> bool \<Rightarrow> nat \<Rightarrow> byte list" where
  "writeChannels block n nc final pad =
     concat (map (\<lambda>y. chanLoop block y n nc @ (if final then padLoop 0 pad else []))
                 [0..<nc])"

text \<open>
  The loop over the blocks, from block \<open>x\<close> on; \<open>len\<close> and \<open>paddedLength\<close> are
  the locals \<open>length\<close> and \<open>paddedLength\<close> and keep their values between blocks.
\<close>

function blockLoop ::
  "ASTInfo \<Rightarrow> nat \<Rightarrow> u32 \<Rightarrow> u32 \<Rightarrow> u16 list \<Rightarrow> FILE' \<Rightarrow> byte list" where
  "blockLoop s x len paddedLength block src =
     (if x < unat (numBlocks s) then
        let final = (x = unat (numBlocks s - 1));
            block1 = (if final then replicate (length block) 0 else block);
            paddedLength1 = (if final then byteswap_ulong (excBlkSz s + padding s)
                             else paddedLength);
            len1 = (if final then excBlkSz s * ucast (numChannels s) else len);
            (block2, src1) = freadBlock block1 (unat len1) src;
            block3 = swapBlock block2 (unat len1 div 2)
        in bytes_of ''BLCK''
           @ fwrite32 paddedLength1
           @ concat (replicate 6 (fwrite32 0))
           @ writeChannels block3 (unat len1 div 2) (unat (numChannels s)) final
               (unat (padding s))
           @ blockLoop s (Suc x) len1 paddedLength1 block3 src1
      else [])"
  by pat_completeness auto
termination
  by (relation "measure (\<lambda>(s, x, len, paddedLength, block, src). unat (numBlocks s) - x)") auto

text \<open>
  \<open>printAudio\<close>; \<open>heap\<close> gives what \<open>malloc\<close> hands out: the elements of the new
  buffer hold whatever was there.
\<close>

definition printAudio :: "(nat \<Rightarrow> u16) \<Rightarrow> FILE' \<Rightarrow> ASTInfo \<Rightarrow> byte list" where
  "printAudio heap src s =
     blockLoop s 0 (blockSize * ucast (numChannels s)) (byteswap_ulong blockSize)
       (map heap [0..<unat (blockSize * ucast (numChannels s)) div 2]) src"

section \<open>writeAST\<close>

text \<open>
  What the program meets outside itself: the files it can open for reading, the names it
  can create for writing, and the contents of fresh heap memory.
\<close>

record env =
  fopen_rb :: "string \<Rightarrow> byte list option"
  fopen_wb :: "string \<Rightarrow> bool"
  heap :: "nat \<Rightarrow> u16"

definition tolower_c :: "char \<Rightarrow> char" where
  "tolower_c c = (if 65 \<le> (of_char c :: nat) \<and> (of_char c :: nat) \<le> 90
                  then char_of ((of_char c :: nat) + 32) else c)"

text \<open>\<open>_strcmpi(a, b) == 0\<close>\<close>

definition strcmpi_eq :: "string \<Rightarrow> string \<Rightarrow> bool" where
  "strcmpi_eq a b = (map tolower_c a = map tolower_c b)"

text \<open>Lines 372 to 381: the number of blocks, the size of the last one, the padding.\<close>

definition calcBlocks :: "ASTInfo \<Rightarrow> ASTInfo" where
  "calcBlocks s =
     (let exc = (numSamples s * 2) mod blockSize;
          nb0 = (numSamples s * 2) div blockSize;
          nb = (if exc \<noteq> 0 then nb0 + 1 else nb0);
          pad0 = 32 - exc mod 32;
          pad = (if pad0 = 32 then 0 else pad0)
      in s\<lparr>excBlkSz := exc, numBlocks := nb, padding := pad,
            astSize := wavSize s + nb * 32 + pad * ucast (numChannels s)\<rparr>)"

text \<open>Lines 383 to 388: the output name ends in \<open>.ast\<close>.\<close>

definition fixExtension :: "ASTInfo \<Rightarrow> ASTInfo" where
  "fixExtension s =
     (let tmp = (if length (filename s) \<ge> 4
                 then drop (length (filename s) - 4) (filename s) else [])
      in if \<not> strcmpi_eq tmp ''.ast'' then s\<lparr>filename := filename s @ ''.ast''\<rparr> else s)"

text \<open>Lines 400 to 406: a full last block, and a loop start inside the stream.\<close>

definition fixLastBlock :: "ASTInfo \<Rightarrow> ASTInfo" where
  "fixLastBlock s = (if excBlkSz s = 0 then s\<lparr>excBlkSz := blockSize\<rparr> else s)"

definition fixLoopStart :: "ASTInfo \<Rightarrow> ASTInfo" where
  "fixLoopStart s = (if loopStart s \<ge> numSamples s then s\<lparr>loopStart := 0\<rparr> else s)"

text \<open>Lines 428 to 431: an unlooped stream starts its loop at 0.\<close>

definition dropLoop :: "ASTInfo \<Rightarrow> ASTInfo" where
  "dropLoop s = (if isLooped s = 0 then s\<lparr>loopStart := 0\<rparr> else s)"

text \<open>
  \<open>writeAST\<close> returns its exit code; the model also returns the object as it is left
  and the output file, when one was created, with its name and contents.
  \<open>CreateDirectory\<close> acts on the file system only and is part of what \<open>fopen_wb\<close>
  answers.
\<close>

definition writeAST ::
  "env \<Rightarrow> FILE' \<Rightarrow> ASTInfo \<Rightarrow> nat \<times> ASTInfo \<times> (string \<times> byte list) option" where
  "writeAST e sourceWAV s0 =
     (let s2 = fixExtension (calcBlocks s0)
      in if strcmpi_eq (filename s2) ''.ast'' then (1, s2, None)
         else if numBlocks s2 = 0 then (1, s2, None)
         else
           let s4 = fixLoopStart (fixLastBlock s2)
           in if customSampleRate s4 = 0 then (1, s4, None)
              else if \<not> fopen_wb e (filename s4) then (1, s4, None)
              else
                let s5 = dropLoop s4
                in (0, s5, Some (filename s5,
                                 printHeader s5 @ printAudio (heap e) sourceWAV s5)))"

section \<open>Reading the WAV header\<close>

text \<open>How a call ends: it returns its exit code, or the process dies in it.\<close>

datatype outcome = Returned nat | Crashed

text \<open>
  Values the program reads before it has written them: the locals of \<open>getWAVData\<close>
  and the fields of the \<open>ASTInfo\<close> object on the stack of \<open>main\<close>. They are
  whatever the memory held.
\<close>

record indet =
  u_riff :: u32
  u_wavefmt :: u32
  u_PCM :: u16
  u_bitrate :: u16
  u_this :: ASTInfo

text \<open>
  The search for a sub-chunk (lines 302 to 311 for \<open>"fmt "\<close>, lines 347 to 356 for
  \<open>"data"\<close>): read a tag; stop when the stream ends or the tag is the one looked for;
  otherwise read the size and skip it. The size is an \<open>unsigned int\<close> handed to
  \<open>fseek\<close> as a \<open>long\<close>, so a size of \<open>0x80000000\<close> or more seeks backwards
  and the search may go on for ever: it is a partial function. The tag and size buffers
  are used only after a complete read, which overwrites them, so what they held before
  does not matter.
\<close>

partial_function (option) findChunk :: "byte list \<Rightarrow> FILE' \<Rightarrow> (bool \<times> FILE') option" where
  "findChunk tag f =
     (case fread (replicate 4 0) 4 f of (n, buf, f1) \<Rightarrow>
        if n \<noteq> 1 then Some (False, f1)
        else if buf = tag then Some (True, f1)
        else (case fread32 0 f1 of (m, chunkSZ, f2) \<Rightarrow>
                if m \<noteq> 1 then Some (False, f2)
                else findChunk tag (fseek_cur f2 (sint chunkSZ))))"

text \<open>
  \<open>getWAVData\<close>. The reads of lines 286, 288, 320, 325, 331, 337 and 362 are not
  checked: after a short read the variable keeps the bytes that were not reached. The
  division of line 364 traps when the channel count is 0.
\<close>

definition getWAVData :: "indet \<Rightarrow> FILE' \<Rightarrow> ASTInfo \<Rightarrow> (outcome \<times> ASTInfo \<times> FILE') option" where
  "getWAVData u sourceWAV s =
     (case fread (le32 (u_riff u)) 4 (fseek_set sourceWAV 0) of (r1, riff, f1) \<Rightarrow>
      case fread (le32 (u_wavefmt u)) 4 (fseek_set f1 8) of (r2, wavefmt, f2) \<Rightarrow>
      if riff \<noteq> bytes_of ''RIFF'' \<or> wavefmt \<noteq> bytes_of ''WAVE'' then Some (Returned 1, s, f2)
      else
        Option.bind (findChunk (bytes_of ''fmt '') f2) (\<lambda>(isFmt, f3).
        if \<not> isFmt then Some (Returned 1, s, f3)
        else
          case fread16 (u_PCM u) (fseek_cur f3 4) of (r3, PCM, f4) \<Rightarrow>
          case fread16 (numChannels s) f4 of (r4, nc, f5) \<Rightarrow>
          case fread32 (sampleRate s) f5 of (r5, sr, f6) \<Rightarrow>
          let s1 = s\<lparr>numChannels := nc, sampleRate := sr, customSampleRate := sr\<rparr>
          in case fread16 (u_bitrate u) (fseek_cur f6 6) of (r6, bitrate, f7) \<Rightarrow>
          if bitrate \<noteq> 16 then Some (Returned 1, s1, f7)
          else
            Option.bind (findChunk (bytes_of ''data'') (fseek_set f7 12)) (\<lambda>(isData, f8).
            if \<not> isData then Some (Returned 1, s1, f8)
            else
              case fread32 (wavSize s1) f8 of (r7, ws, f9) \<Rightarrow>
              if ucast nc * 2 = (0 :: u32) then Some (Crashed, s1\<lparr>wavSize := ws\<rparr>, f9)
              else Some (Returned 0,
                         s1\<lparr>wavSize := ws, numSamples := ws div (ucast nc * 2)\<rparr>, f9))))"

section \<open>The command line\<close>

text \<open>
  \<open>atoi\<close> and \<open>atol\<close> of the C runtime: white space, an optional sign, decimal
  digits; anything else ends the number. \<open>int\<close> and \<open>long\<close> are both 32 bits; a
  value out of their range gives the nearest bound, as the Microsoft runtime does.
\<close>

definition isspace_c :: "char \<Rightarrow> bool" where
  "isspace_c c = ((of_char c :: nat) = 32 \<or> (9 \<le> (of_char c :: nat) \<and> (of_char c :: nat) \<le> 13))"

definition isdigit_c :: "char \<Rightarrow> bool" where
  "isdigit_c c = (48 \<le> (of_char c :: nat) \<and> (of_char c :: nat) \<le> 57)"

fun digits :: "string \<Rightarrow> int \<Rightarrow> int" where
  "digits [] acc = acc"
| "digits (c # cs) acc =
     (if isdigit_c c then digits cs (acc * 10 + (int (of_char c) - 48)) else acc)"

definition atoi :: "string \<Rightarrow> int" where
  "atoi str =
     (let s1 = dropWhile isspace_c str;
          neg = (s1 \<noteq> [] \<and> hd s1 = CHR ''-'');
          s2 = (if s1 \<noteq> [] \<and> (hd s1 = CHR ''-'' \<or> hd s1 = CHR ''+'') then tl s1 else s1);
          v = (if neg then - digits s2 0 else digits s2 0)
      in max (- (2 ^ 31)) (min (2 ^ 31 - 1) v))"

definition atol :: "string \<Rightarrow> int" where
  "atol str = atoi str"

text \<open>
  The two casts of the \<open>long double\<close> that lines 228 to 231 and 251 to 253 compute
  from the microseconds and the sample rate, \<open>time / 1000000.0 * sampleRate + 0.5\<close>.
  Floating-point arithmetic is not modelled: the results of the casts are parameters, and
  what is proved holds whatever they are.
\<close>

record fpu =
  toU64 :: "u64 \<Rightarrow> u32 \<Rightarrow> u64"
  toInt :: "u64 \<Rightarrow> u32 \<Rightarrow> u32"

text \<open>\<open>str.find_last_of(cs)\<close> as an \<open>int\<close>, -1 for \<open>npos\<close>.\<close>

definition find_last_of :: "string \<Rightarrow> string \<Rightarrow> int" where
  "find_last_of str cs =
     (case filter (\<lambda>i. str ! i \<in> set cs) (rev [0..<length str]) of
        [] \<Rightarrow> - 1
      | i # _ \<Rightarrow> int i)"

text \<open>Lines 239 to 243, shared by \<open>-e\<close> and \<open>-f\<close>.\<close>

definition setEnd :: "u64 \<Rightarrow> ASTInfo \<Rightarrow> ASTInfo" where
  "setEnd samples s =
     (let s1 = (if numSamples s < ucast samples then s else s\<lparr>numSamples := ucast samples\<rparr>)
      in s1\<lparr>wavSize := numSamples s1 * 2 * ucast (numChannels s1)\<rparr>)"

text \<open>
  \<open>assignValue\<close>; \<open>c2\<close> is \<open>None\<close> for a null pointer, which \<open>grabInfo\<close>
  passes with \<open>-n\<close> and \<open>-h\<close> only. \<open>c1\<close> holds at least one character.
\<close>

definition assignValue :: "fpu \<Rightarrow> string \<Rightarrow> string option \<Rightarrow> ASTInfo \<Rightarrow> outcome \<times> ASTInfo" where
  "assignValue fp c1 c2 s =
     (let v = (if 1 < length c1 then c1 ! 1 else CHR 0x00)
      in if v = CHR ''h'' then (Returned 0, s)
         else if v = CHR ''n'' then (Returned 0, s\<lparr>isLooped := 0\<rparr>)
         else if v \<notin> set ''osterf'' then (Returned 1, s)
         else case c2 of
           None \<Rightarrow> (Crashed, s)
         | Some a \<Rightarrow>
             if v = CHR ''o'' then
               (if CHR ''*'' \<in> set a \<or> CHR ''?'' \<in> set a \<or> CHR 0x22 \<in> set a
                   \<or> find_last_of a '':'' > find_last_of a [CHR ''/'', CHR 0x5C]
                   \<or> CHR ''<'' \<in> set a \<or> CHR ''>'' \<in> set a \<or> CHR ''|'' \<in> set a
                then (Returned 0, s)
                else (Returned 0, s\<lparr>filename := a\<rparr>))
             else if v = CHR ''s'' then (Returned 0, s\<lparr>loopStart := word_of_int (atoi a)\<rparr>)
             else if v = CHR ''t'' then
               (Returned 0, s\<lparr>loopStart := toInt fp (word_of_int (atol a)) (sampleRate s)\<rparr>)
             else if v = CHR ''e'' then
               (let samples = (word_of_int (atoi a) :: u64)
                in if samples = 0 then (Returned 1, s) else (Returned 0, setEnd samples s))
             else if v = CHR ''f'' then
               (let time = (word_of_int (atol a) :: u64)
                in if time = 0 then (Returned 1, s)
                   else let samples = toU64 fp time (sampleRate s)
                        in if samples = 0 then (Returned 1, s)
                           else (Returned 0, setEnd samples s))
             else
               (let r = (word_of_int (atoi a) :: u32)
                in (Returned 0, s\<lparr>customSampleRate := (if r = 0 then sampleRate s else r)\<rparr>)))"

text \<open>
  The loop over the arguments (lines 152 to 180), from \<open>argv[count]\<close> on.
  \<open>argv[argc]\<close> is a null pointer: when the last argument is an option that takes a
  value, \<open>count\<close> is stepped onto it and line 170 reads through it. The same line, on
  an empty value, reads one character past its end; that only decides whether the help
  text is printed, and console output is not part of the model.
\<close>

function optLoop :: "fpu \<Rightarrow> string list \<Rightarrow> nat \<Rightarrow> ASTInfo \<Rightarrow> outcome \<times> ASTInfo" where
  "optLoop fp argv count s =
     (if count < length argv then
        let a = argv ! count
        in if a \<noteq> [] \<and> hd a = CHR ''-'' then
             if length a \<noteq> 2 then (Returned 1, s)
             else
               let valued = (a ! 1 \<noteq> CHR ''n'' \<and> a ! 1 \<noteq> CHR ''h'');
                   (ex, s1) = (if length argv - 1 = count
                               then (if valued then (Returned 1, s) else assignValue fp a None s)
                               else assignValue fp a (Some (argv ! (count + 1))) s);
                   count1 = (if valued then count + 1 else count)
               in if ex = Crashed \<or> length argv \<le> count1 then (Crashed, s1)
                  else if ex = Returned 1 then (Returned 1, s1)
                  else optLoop fp argv (count1 + 1) s1
           else (Returned 1, s)
      else (Returned 0, s))"
  by pat_completeness auto
termination
  by (relation "measure (\<lambda>(fp, argv, count, s). length argv - count)") auto

text \<open>Lines 124 to 140: the length of the extension, \<open>.wav\<close> or \<open>.wave\<close>.\<close>

definition wavExtension :: "string \<Rightarrow> nat option" where
  "wavExtension name =
     (let tmp = (if length name \<ge> 4 then drop (length name - 4) name else [])
      in if tmp = ''.wav'' then Some 4
         else let tmp5 = (if length name \<ge> 5 then drop (length name - 5) name else tmp)
              in if tmp5 = ''.wave'' then Some 5 else None)"

text \<open>
  \<open>grabInfo\<close>, on the argument vector; the object starts with what the memory held
  and the initialisers of the class.
\<close>

definition grabInfo ::
  "fpu \<Rightarrow> env \<Rightarrow> indet \<Rightarrow> string list
     \<Rightarrow> (outcome \<times> ASTInfo \<times> (string \<times> byte list) option) option" where
  "grabInfo fp e u argv =
     (let s = (u_this u)\<lparr>isLooped := 65535, loopStart := 0, filename := argv ! 1\<rparr>
      in if CHR ''*'' \<in> set (filename s) then Some (Returned 1, s, None)
         else case fopen_rb e (filename s) of
           None \<Rightarrow> Some (Returned 1, s, None)
         | Some bytes \<Rightarrow>
             (case wavExtension (filename s) of
                None \<Rightarrow> Some (Returned 1, s, None)
              | Some wavE \<Rightarrow>
                  let s1 = s\<lparr>filename := take (length (filename s) - wavE) (filename s) @ ''.ast''\<rparr>
                  in Option.bind (getWAVData u \<lparr>contents = bytes, pos = 0\<rparr> s1) (\<lambda>(ex, s2, sourceWAV).
                     if ex \<noteq> Returned 0 then Some (ex, s2, None)
                     else case optLoop fp argv 2 s2 of (ex3, s3) \<Rightarrow>
                       if ex3 \<noteq> Returned 0 then Some (ex3, s3, None)
                       else case writeAST e sourceWAV s3 of (rc, s4, out) \<Rightarrow>
                         Some (Returned rc, s4, out))))"

text \<open>\<open>main\<close>: fewer than two arguments print the help text and fail.\<close>

definition main :: 
  "fpu \<Rightarrow> env \<Rightarrow> indet \<Rightarrow> string list
     \<Rightarrow> (outcome \<times> (string \<times> byte list) option) option" where
  "main fp e u argv =
     (if length argv < 2 then Some (Returned 1, None)
      else map_option (\<lambda>(ex, s, out). (if ex = Returned 1 then Returned 1
                                          else if ex = Crashed then Crashed else Returned 0, out))
             (grabInfo fp e u argv))"

section \<open>The layout of a block, as the specification words it\<close>







section \<open>What holds of the object between the reader and the writer\<close>

text \<open>
  After \<open>getWAVData\<close> has succeeded there is at least one channel, and the frames
  counted fit into the size of the data: \<open>numSamples\<close> comes from dividing
  \<open>wavSize\<close> by \<open>2 * numChannels\<close> (line 364), and \<open>-e\<close> and \<open>-f\<close> set
  \<open>wavSize\<close> to the product (lines 243 and 262).
\<close>

definition sourceInv :: "ASTInfo \<Rightarrow> bool" where
  "sourceInv s =
     (numChannels s \<noteq> 0 \<and> unat (numSamples s) * (2 * unat (numChannels s)) \<le> unat (wavSize s))"

section \<open>A small input\<close>

text \<open>
  A stereo file of three frames at 32000 Hz, the object \<open>getWAVData\<close> makes of it,
  and a world in which every output file can be created.
\<close>

definition ex_wav :: "byte list" where
  "ex_wav =
     bytes_of ''RIFF'' @ le32 48 @ bytes_of ''WAVE''
     @ bytes_of ''fmt '' @ le32 16 @ le16 1 @ le16 2 @ le32 32000 @ le32 128000 @ le16 4 @ le16 16
     @ bytes_of ''data'' @ le32 12
     @ [0x01, 0x02, 0x11, 0x12, 0x03, 0x04, 0x13, 0x14, 0x05, 0x06, 0x15, 0x16]"

text \<open>A file of one frame of seventeen channels.\<close>

definition ex_wide :: "byte list" where
  "ex_wide =
     bytes_of ''RIFF'' @ le32 70 @ bytes_of ''WAVE''
     @ bytes_of ''fmt '' @ le32 16 @ le16 1 @ le16 17 @ le32 32000 @ le32 1088000 @ le16 34
     @ le16 16
     @ bytes_of ''data'' @ le32 34 @ replicate 34 0x11"

text \<open>
  A header that announces \<open>0xFFFFFFFE\<close> bytes of mono data, with the first two of
  them.
\<close>

definition ex_big :: "byte list" where
  "ex_big =
     bytes_of ''RIFF'' @ le32 0xFFFFFFFF @ bytes_of ''WAVE''
     @ bytes_of ''fmt '' @ le32 16 @ le16 1 @ le16 1 @ le32 32000 @ le32 64000 @ le16 2 @ le16 16
     @ bytes_of ''data'' @ le32 0xFFFFFFFE @ [0x01, 0x02]"

text \<open>
  A file whose first sub-chunk gives its size as \<open>0xFFFFFFF8\<close>, which is -8 as a
  \<open>long\<close>.
\<close>

definition ex_loop :: "byte list" where
  "ex_loop = bytes_of ''RIFF'' @ le32 12 @ bytes_of ''WAVE'' @ bytes_of ''LIST'' @ le32 0xFFFFFFF8"

definition ex_env :: env where
  "ex_env = \<lparr>fopen_rb = (\<lambda>name. if name = ''in.wav'' then Some ex_wav
                                 else if name = ''wide.wav'' then Some ex_wide
                                 else if name = ''big.wav'' then Some ex_big
                                 else if name = ''loop.wav'' then Some ex_loop else None),
              fopen_wb = (\<lambda>name. True), heap = (\<lambda>i. 0)\<rparr>"

text \<open>
  Memory that holds zeros, and the two casts as exact arithmetic gives them (the sum
  \<open>time * sampleRate / 1000000 + 1/2\<close> rounded down): what the floating-point unit
  returns wherever the quotient, the product and the sum are exactly representable.
\<close>

definition ex_indet :: indet where
  "ex_indet = \<lparr>u_riff = 0, u_wavefmt = 0, u_PCM = 0, u_bitrate = 0,
                u_this = \<lparr>filename = [], customSampleRate = 0, sampleRate = 0,
                          numChannels = 0, numSamples = 0, isLooped = 0, loopStart = 0,
                          astSize = 0, wavSize = 0, excBlkSz = 0, numBlocks = 0,
                          padding = 0\<rparr>\<rparr>"

definition ex_fpu :: fpu where
  "ex_fpu = \<lparr>toU64 = (\<lambda>t r. of_nat ((unat t * unat r * 2 + 1000000) div 2000000)),
              toInt = (\<lambda>t r. of_nat ((unat t * unat r * 2 + 1000000) div 2000000))\<rparr>"

definition ex_src :: FILE' where
  "ex_src = \<lparr>contents = ex_wav, pos = 44\<rparr>"

definition ex_state :: ASTInfo where
  "ex_state = \<lparr>filename = ''in.ast'', customSampleRate = 32000, sampleRate = 32000,
                numChannels = 2, numSamples = 3, isLooped = 65535, loopStart = 0, astSize = 0,
                wavSize = 12, excBlkSz = 0, numBlocks = 0, padding = 0\<rparr>"

text \<open>The object as \<open>writeAST\<close> leaves it on that input.\<close>

definition ex_final :: ASTInfo where
  "ex_final = ex_state\<lparr>excBlkSz := 6, numBlocks := 1, padding := 26, astSize := 96\<rparr>"

text \<open>The object on the file of seventeen channels, as \<open>writeAST\<close> leaves it.\<close>

definition ex_wide_final :: ASTInfo where
  "ex_wide_final = \<lparr>filename = ''wide.ast'', customSampleRate = 32000, sampleRate = 32000,
                     numChannels = 17, numSamples = 1, isLooped = 65535, loopStart = 0,
                     astSize = 576, wavSize = 34, excBlkSz = 2, numBlocks = 1, padding = 30\<rparr>"

text \<open>
  The object after the header of a mono file of 1000 frames whose sample rate field holds
  2147484.
\<close>

definition ex_fast :: ASTInfo where
  "ex_fast = \<lparr>filename = ''fast.ast'', customSampleRate = 2147484, sampleRate = 2147484,
               numChannels = 1, numSamples = 1000, isLooped = 65535, loopStart = 0,
               astSize = 0, wavSize = 2000, excBlkSz = 0, numBlocks = 0, padding = 0\<rparr>"

text \<open>The object on the file that announces \<open>0xFFFFFFFE\<close> bytes of data.\<close>

definition ex_big_final :: ASTInfo where
  "ex_big_final = \<lparr>filename = ''big.ast'', customSampleRate = 32000, sampleRate = 32000,
                    numChannels = 1, numSamples = 2147483647, isLooped = 65535, loopStart = 0,
                    astSize = 13634848, wavSize = 4294967294, excBlkSz = 254,
                    numBlocks = 426089, padding = 2\<rparr>"

section \<open>More inputs\<close>

text \<open>
  A stereo file whose data chunk is empty; a mono file whose data chunk announces 10082
  bytes, 5041 frames, and holds none of them; a stereo file whose data chunk holds three
  frames and two bytes more.
\<close>

definition ex_empty :: "byte list" where
  "ex_empty =
     bytes_of ''RIFF'' @ le32 36 @ bytes_of ''WAVE''
     @ bytes_of ''fmt '' @ le32 16 @ le16 1 @ le16 2 @ le32 32000 @ le32 128000 @ le16 4 @ le16 16
     @ bytes_of ''data'' @ le32 0"

definition ex_short :: "byte list" where
  "ex_short =
     bytes_of ''RIFF'' @ le32 10118 @ bytes_of ''WAVE''
     @ bytes_of ''fmt '' @ le32 16 @ le16 1 @ le16 1 @ le32 32000 @ le32 64000 @ le16 2 @ le16 16
     @ bytes_of ''data'' @ le32 10082"

definition ex_odd :: "byte list" where
  "ex_odd =
     bytes_of ''RIFF'' @ le32 50 @ bytes_of ''WAVE''
     @ bytes_of ''fmt '' @ le32 16 @ le16 1 @ le16 2 @ le32 32000 @ le32 128000 @ le16 4 @ le16 16
     @ bytes_of ''data'' @ le32 14
     @ [0x01, 0x02, 0x11, 0x12, 0x03, 0x04, 0x13, 0x14, 0x05, 0x06, 0x15, 0x16, 0x07, 0x08]"

text \<open>
  Two worlds that hold these files and differ in what fresh heap memory contains.
\<close>

definition ex_env2 :: env where
  "ex_env2 = \<lparr>fopen_rb = (\<lambda>name. if name = ''empty.wav'' then Some ex_empty
                                  else if name = ''short.wav'' then Some ex_short
                                  else if name = ''odd.wav'' then Some ex_odd else None),
               fopen_wb = (\<lambda>name. True), heap = (\<lambda>i. 0xCDAB)\<rparr>"


text \<open>
  The object as \<open>writeAST\<close> leaves it on each of the three files, and on the third
  as \<open>getWAVData\<close> leaves it.
\<close>

definition ex_empty_final :: ASTInfo where
  "ex_empty_final = \<lparr>filename = ''empty.ast'', customSampleRate = 32000, sampleRate = 32000,
                      numChannels = 2, numSamples = 0, isLooped = 65535, loopStart = 0,
                      astSize = 0, wavSize = 0, excBlkSz = 0, numBlocks = 0, padding = 0\<rparr>"


definition ex_odd_state :: ASTInfo where
  "ex_odd_state = \<lparr>filename = ''odd.ast'', customSampleRate = 32000, sampleRate = 32000,
                    numChannels = 2, numSamples = 3, isLooped = 65535, loopStart = 0,
                    astSize = 0, wavSize = 14, excBlkSz = 0, numBlocks = 0, padding = 0\<rparr>"

definition ex_odd_final :: ASTInfo where
  "ex_odd_final = ex_odd_state\<lparr>excBlkSz := 6, numBlocks := 1, padding := 26, astSize := 98\<rparr>"

text \<open>
  The object with one full block of stereo frames, and the same with an output name that
  is the extension alone, as \<open>-o .ast\<close> leaves it.
\<close>

definition ex_full :: ASTInfo where
  "ex_full = ex_state\<lparr>numSamples := 5040, wavSize := 20160\<rparr>"

definition ex_full_final :: ASTInfo where
  "ex_full_final = ex_full\<lparr>excBlkSz := 10080, numBlocks := 1, padding := 0, astSize := 20192\<rparr>"

section \<open>The options that set the end of the stream\<close>

text \<open>
  Whether the loop over the arguments (lines 152 to 180), from \<open>argv[count]\<close> on,
  comes to an option \<open>-e\<close> or \<open>-f\<close>: the walk of that loop over the argument vector
  alone, one argument further after \<open>-n\<close> and \<open>-h\<close> and two after every other
  option, up to the first argument that is not an option of two characters.
\<close>

function endGiven :: "string list \<Rightarrow> nat \<Rightarrow> bool" where
  "endGiven argv count =
     (if count < length argv \<and> argv ! count \<noteq> [] \<and> hd (argv ! count) = CHR ''-''
         \<and> length (argv ! count) = 2
      then argv ! count ! 1 = CHR ''e'' \<or> argv ! count ! 1 = CHR ''f''
           \<or> endGiven argv (if argv ! count ! 1 \<noteq> CHR ''n'' \<and> argv ! count ! 1 \<noteq> CHR ''h''
                            then count + 2 else count + 1)
      else False)"
  by pat_completeness auto
termination
  by (relation "measure (\<lambda>(argv, count). length argv - count)") auto

section \<open>Bytes and words\<close>

text \<open>The loops are unfolded by hand, one turn at a time.\<close>

declare chanLoop.simps [simp del] padLoop.simps [simp del] blockLoop.simps [simp del]
  optLoop.simps [simp del]

lemma le32_rd32: "le32 (rd32 [a, b, c, d]) = [a, b, c, d]"
  apply (simp add: rd32_def le32_def)
  apply (intro conjI)
     apply (rule bit_word_eqI, auto simp add: bit_simps dest: bit_imp_le_length)+
  done

lemma rd32_le32: "rd32 (le32 w) = w"
  apply (simp add: rd32_def le32_def)
  apply (rule bit_word_eqI)
  subgoal for n
    apply (cases "n < 8"; cases "n < 16"; cases "n < 24")
           apply (auto simp add: bit_simps not_less)
    done
  done


lemma rd16_le16: "rd16 (le16 w) = w"
  apply (simp add: rd16_def le16_def)
  apply (rule bit_word_eqI)
  apply (auto simp add: bit_simps)
  done

lemma length_le32 [simp]: "length (le32 w) = 4"
  by (simp add: le32_def)

lemma length_le16 [simp]: "length (le16 w) = 2"
  by (simp add: le16_def)

lemma length_fwrite32 [simp]: "length (fwrite32 w) = 4"
  by (simp add: fwrite32_def)

lemma length_fwrite16 [simp]: "length (fwrite16 w) = 2"
  by (simp add: fwrite16_def)

lemma length_bytes_of [simp]: "length (bytes_of cs) = length cs"
  by (simp add: bytes_of_def)

text \<open>A swapped word, written in memory order, is the word in big-endian order.\<close>

lemma fwrite32_swap: "fwrite32 (byteswap_ulong w) = rev (le32 w)"
proof -
  have "rev (le32 w) = [ucast (drop_bit 24 w), ucast (drop_bit 16 w), ucast (drop_bit 8 w), ucast w]"
    by (simp add: le32_def)
  then show ?thesis
    by (simp add: fwrite32_def byteswap_ulong_def le32_rd32)
qed


section \<open>Arithmetic of the block layout\<close>

lemma ceil_div_nat:
  fixes a b :: nat
  assumes "0 < b"
  shows "(a + (b - 1)) div b = (if a mod b = 0 then a div b else a div b + 1)"
proof -
  have a: "a + (b - 1) = (a mod b + (b - 1)) + (a div b) * b"
    by simp
  have "(a + (b - 1)) div b = (a mod b + (b - 1)) div b + a div b"
    unfolding a using assms by (simp only: div_mult_self1 div_mult_self3)
  moreover have "(a mod b + (b - 1)) div b = (if a mod b = 0 then 0 else 1)"
  proof (cases "a mod b = 0")
    case True
    then show ?thesis using assms by simp
  next
    case False
    have "a mod b < b" using assms by simp
    then have "b \<le> a mod b + (b - 1)" "a mod b + (b - 1) < 2 * b"
      using False by auto
    then have "(a mod b + (b - 1)) div b = 1"
      by (intro div_nat_eqI) auto
    then show ?thesis using False by simp
  qed
  ultimately show ?thesis by simp
qed

lemma ceil_real_nat:
  fixes a b :: nat
  assumes "0 < b"
  shows "\<lceil>real a / real b\<rceil> = int ((a + (b - 1)) div b)"
proof -
  have m: "(int a mod int b = 0) = (a mod b = 0)"
    using of_nat_eq_0_iff[of "a mod b", where ?'a = int] by (simp only: of_nat_mod)
  have "\<lceil>real a / real b\<rceil> = \<lceil>of_int (int a) / of_int (int b) :: real\<rceil>"
    by simp
  also have "\<dots> = - (- int a div int b)"
    by (rule ceiling_divide_eq_div)
  also have "\<dots> = (if int a mod int b = 0 then int a div int b else int a div int b + 1)"
    using assms by (simp add: zdiv_zminus1_eq_if)
  also have "\<dots> = int (if a mod b = 0 then a div b else a div b + 1)"
    unfolding m by (simp add: of_nat_div)
  also have "\<dots> = int ((a + (b - 1)) div b)"
    using ceil_div_nat[OF assms, of a] by simp
  finally show ?thesis .
qed

lemma pad_arith:
  fixes r :: nat
  assumes "even r"
  shows "even ((32 - r mod 32) mod 32)" and "(32 - r mod 32) mod 32 \<le> 30"
    and "(r + (32 - r mod 32) mod 32) mod 32 = 0"
proof -
  define m where "m = r mod 32"
  have m: "m < 32" "even m"
    using assms by (simp_all add: m_def dvd_mod_iff)
  have m2: "m = 0 \<or> (2 \<le> m \<and> m < 32)"
    using m by (cases "m = 0"; cases "m = 1") auto
  have e: "even (32 - m)"
    using m by simp
  show "even ((32 - r mod 32) mod 32)"
    using e unfolding m_def[symmetric] by (simp add: dvd_mod_iff)
  show "(32 - r mod 32) mod 32 \<le> 30"
    using m2 unfolding m_def[symmetric] by auto
  have "(m + (32 - m) mod 32) mod 32 = 0"
    using m2 by auto
  then have "(r mod 32 + (32 - r mod 32) mod 32) mod 32 = 0"
    by (simp add: m_def)
  then show "(r + (32 - r mod 32) mod 32) mod 32 = 0"
    using mod_add_left_eq[of r 32 "(32 - r mod 32) mod 32"] by simp
qed

lemma unat_dbl_even: "even (unat ((n :: u32) * 2))"
  by (simp add: unat_word_ariths dvd_mod_iff)

lemma unat_exc: "unat (((n :: u32) * 2) mod blockSize) = unat (n * 2) mod 10080"
  by (simp add: blockSize_def unat_mod)

lemma unat_nb0: "unat (((n :: u32) * 2) div blockSize) = unat (n * 2) div 10080"
  by (simp add: blockSize_def unat_div)

lemma unat_pad0: "unat (32 - (x :: u32) mod 32) = 32 - unat x mod 32"
proof -
  have "x mod 32 \<le> 32"
    by (simp add: word_le_nat_alt unat_mod less_imp_le)
  then have "unat (32 - x mod 32) = unat (32 :: u32) - unat (x mod 32)"
    by (rule unat_sub)
  then show ?thesis by (simp add: unat_mod)
qed

lemma unat_nb:
  "unat (if ((n :: u32) * 2) mod blockSize \<noteq> 0 then (n * 2) div blockSize + 1
         else (n * 2) div blockSize)
   = (unat (n * 2) + 10079) div 10080"
proof -
  have "unat (n * 2) div 10080 \<le> unat (n * 2)"
    by (rule div_le_dividend)
  then have lt: "unat (n * 2 div blockSize) < 2 ^ 32 - 1"
    using unsigned_less[of "n * 2", where ?'a = nat] by (simp add: unat_nb0)
  have "unat (n * 2 div blockSize + 1) = unat (n * 2 div blockSize) + 1"
    using lt by (simp add: unat_word_ariths)
  moreover have "(n * 2 mod blockSize = 0) = (unat (n * 2) mod 10080 = 0)"
    by (simp add: word_unat_eq_iff unat_exc)
  ultimately show ?thesis
    using ceil_div_nat[of 10080 "unat (n * 2)"] by (simp add: unat_nb0)
qed

section \<open>What each step of writeAST leaves alone\<close>

lemma calcBlocks_simps [simp]:
  "numSamples (calcBlocks s) = numSamples s"
  "numChannels (calcBlocks s) = numChannels s"
  "isLooped (calcBlocks s) = isLooped s"
  "wavSize (calcBlocks s) = wavSize s"
  "customSampleRate (calcBlocks s) = customSampleRate s"
  "loopStart (calcBlocks s) = loopStart s"
  "filename (calcBlocks s) = filename s"
  by (simp_all add: calcBlocks_def Let_def)

lemma fixExtension_simps [simp]:
  "numSamples (fixExtension s) = numSamples s"
  "numChannels (fixExtension s) = numChannels s"
  "isLooped (fixExtension s) = isLooped s"
  "wavSize (fixExtension s) = wavSize s"
  "customSampleRate (fixExtension s) = customSampleRate s"
  "loopStart (fixExtension s) = loopStart s"
  "numBlocks (fixExtension s) = numBlocks s"
  "excBlkSz (fixExtension s) = excBlkSz s"
  "padding (fixExtension s) = padding s"
  "astSize (fixExtension s) = astSize s"
  by (simp_all add: fixExtension_def Let_def)

lemma fixLastBlock_simps [simp]:
  "numSamples (fixLastBlock s) = numSamples s"
  "numChannels (fixLastBlock s) = numChannels s"
  "isLooped (fixLastBlock s) = isLooped s"
  "wavSize (fixLastBlock s) = wavSize s"
  "customSampleRate (fixLastBlock s) = customSampleRate s"
  "loopStart (fixLastBlock s) = loopStart s"
  "numBlocks (fixLastBlock s) = numBlocks s"
  "padding (fixLastBlock s) = padding s"
  "astSize (fixLastBlock s) = astSize s"
  "filename (fixLastBlock s) = filename s"
  by (simp_all add: fixLastBlock_def)

lemma fixLoopStart_simps [simp]:
  "numSamples (fixLoopStart s) = numSamples s"
  "numChannels (fixLoopStart s) = numChannels s"
  "isLooped (fixLoopStart s) = isLooped s"
  "wavSize (fixLoopStart s) = wavSize s"
  "customSampleRate (fixLoopStart s) = customSampleRate s"
  "excBlkSz (fixLoopStart s) = excBlkSz s"
  "numBlocks (fixLoopStart s) = numBlocks s"
  "padding (fixLoopStart s) = padding s"
  "astSize (fixLoopStart s) = astSize s"
  "filename (fixLoopStart s) = filename s"
  by (simp_all add: fixLoopStart_def)

lemma dropLoop_simps [simp]:
  "numSamples (dropLoop s) = numSamples s"
  "numChannels (dropLoop s) = numChannels s"
  "isLooped (dropLoop s) = isLooped s"
  "wavSize (dropLoop s) = wavSize s"
  "customSampleRate (dropLoop s) = customSampleRate s"
  "excBlkSz (dropLoop s) = excBlkSz s"
  "numBlocks (dropLoop s) = numBlocks s"
  "padding (dropLoop s) = padding s"
  "astSize (dropLoop s) = astSize s"
  "filename (dropLoop s) = filename s"
  by (simp_all add: dropLoop_def)

lemma calcBlocks_numBlocks:
  "unat (numBlocks (calcBlocks s)) = (unat (numSamples s * 2) + 10079) div 10080"
  using unat_nb[of "numSamples s"] by (simp add: calcBlocks_def Let_def)

lemma calcBlocks_excBlkSz:
  "unat (excBlkSz (calcBlocks s)) = unat (numSamples s * 2) mod 10080"
  by (simp add: calcBlocks_def Let_def unat_exc)

lemma calcBlocks_padding:
  "unat (padding (calcBlocks s)) = (32 - (unat (numSamples s * 2) mod 10080) mod 32) mod 32"
proof -
  have "unat (padding (calcBlocks s)) =
          (if 32 - (unat (numSamples s * 2) mod 10080) mod 32 = 32 then 0
           else 32 - (unat (numSamples s * 2) mod 10080) mod 32)"
    by (simp add: calcBlocks_def Let_def word_unat_eq_iff unat_pad0 unat_exc)
  moreover have "(if 32 - m = 32 then 0 else 32 - m) = (32 - m) mod 32" if "m < 32" for m :: nat
    using that by (cases "m = 0") auto
  ultimately show ?thesis by simp
qed

lemma calcBlocks_astSize:
  "astSize (calcBlocks s) =
     wavSize s + numBlocks (calcBlocks s) * 32 + padding (calcBlocks s) * ucast (numChannels s)"
  by (simp add: calcBlocks_def Let_def)

text \<open>The three parts of the result of \<open>writeAST\<close>.\<close>

lemma writeAST_fields:
  "numSamples (fst (snd (writeAST e src s))) = numSamples s"
  "numChannels (fst (snd (writeAST e src s))) = numChannels s"
  "isLooped (fst (snd (writeAST e src s))) = isLooped s"
  "wavSize (fst (snd (writeAST e src s))) = wavSize s"
  "customSampleRate (fst (snd (writeAST e src s))) = customSampleRate s"
  "numBlocks (fst (snd (writeAST e src s))) = numBlocks (calcBlocks s)"
  "padding (fst (snd (writeAST e src s))) = padding (calcBlocks s)"
  "astSize (fst (snd (writeAST e src s))) = astSize (calcBlocks s)"
  by (simp_all add: writeAST_def Let_def)

lemma writeAST_excBlkSz:
  "excBlkSz (fst (snd (writeAST e src s))) = excBlkSz (calcBlocks s)
   \<or> excBlkSz (fst (snd (writeAST e src s))) = blockSize \<and> excBlkSz (calcBlocks s) = 0"
  by (simp add: writeAST_def Let_def fixLastBlock_def)

lemma writeAST_ok:
  assumes "fst (writeAST e src s) = 0"
  shows "numBlocks (calcBlocks s) \<noteq> 0"
    and "customSampleRate s \<noteq> 0"
    and "excBlkSz (fst (snd (writeAST e src s))) =
          (if excBlkSz (calcBlocks s) = 0 then blockSize else excBlkSz (calcBlocks s))"
    and "loopStart (fst (snd (writeAST e src s))) =
          (if isLooped s = 0 \<or> numSamples s \<le> loopStart s then 0 else loopStart s)"
    and "snd (snd (writeAST e src s)) =
          Some (filename (fst (snd (writeAST e src s))),
                printHeader (fst (snd (writeAST e src s)))
                @ printAudio (heap e) src (fst (snd (writeAST e src s))))"
  using assms
  by (simp_all add: writeAST_def Let_def dropLoop_def fixLoopStart_def fixLastBlock_def
      split: if_splits)

lemma writeAST_fail:
  assumes "fst (writeAST e src s) \<noteq> 0"
  shows "snd (snd (writeAST e src s)) = None" and "fst (writeAST e src s) = 1"
  using assms by (simp_all add: writeAST_def Let_def split: if_splits)

section \<open>The header, field by field\<close>

lemma printHeader_length: "length (printHeader s) = 64"
  by (simp add: printHeader_def eval_nat_numeral)

lemma readBE32_fields:
  "length a4 = 4 \<Longrightarrow> length b4 = 4 \<Longrightarrow> length c4 = 4 \<Longrightarrow> length d2 = 2 \<Longrightarrow> length e2 = 2
   \<Longrightarrow> length f4 = 4 \<Longrightarrow>
   readBE32 (a4 @ b4 @ c4 @ d2 @ e2 @ f4 @ fwrite32 (byteswap_ulong v14)
       @ fwrite32 (byteswap_ulong v18) @ fwrite32 (byteswap_ulong v1C)
       @ fwrite32 (byteswap_ulong v20) @ rest) off =
     (if off = 0x14 then v14 else if off = 0x18 then v18 else if off = 0x1C then v1C
      else if off = 0x20 then v20
      else readBE32 (a4 @ b4 @ c4 @ d2 @ e2 @ f4 @ fwrite32 (byteswap_ulong v14)
             @ fwrite32 (byteswap_ulong v18) @ fwrite32 (byteswap_ulong v1C)
             @ fwrite32 (byteswap_ulong v20) @ rest) off)"
  by (simp add: readBE32_def fwrite32_swap rd32_le32)

lemma printHeader_shape:
  "printHeader s @ body =
     bytes_of ''STRM''
     @ fwrite32 (byteswap_ulong (astSize s))
     @ fwrite32 268435712
     @ fwrite16 (byteswap_ushort (numChannels s))
     @ fwrite16 (isLooped s)
     @ fwrite32 (byteswap_ulong (customSampleRate s))
     @ fwrite32 (byteswap_ulong (numSamples s))
     @ fwrite32 (byteswap_ulong (loopStart s))
     @ fwrite32 (byteswap_ulong (numSamples s))
     @ fwrite32 (byteswap_ulong (if numBlocks s = 1 then excBlkSz s + padding s else blockSize))
     @ (fwrite32 0 @ fwrite32 127 @ concat (replicate 5 (fwrite32 0)) @ body)"
  by (simp add: printHeader_def)

lemma header_fields:
  "readBE32 (printHeader s @ body) 0x14 = numSamples s"
  "readBE32 (printHeader s @ body) 0x18 = loopStart s"
  "readBE32 (printHeader s @ body) 0x1C = numSamples s"
  "readBE32 (printHeader s @ body) 0x20 =
     (if numBlocks s = 1 then excBlkSz s + padding s else blockSize)"
  unfolding printHeader_shape by (subst readBE32_fields, simp_all)+

lemma header_loopflag: "take 2 (drop 0x0E (printHeader s @ body)) = le16 (isLooped s)"
  by (simp add: printHeader_def fwrite16_def)

text \<open>A small run, used to show that the statements below are not empty.\<close>

lemma tolower_ast: "map tolower_c ''.ast'' = ''.ast''"
  by (simp add: tolower_c_def)


section \<open>The invariant of the object\<close>

lemma unat_ucast_u16: "unat (ucast (c :: u16) :: u32) = unat c"
proof -
  have "unat c < 2 ^ 16"
    using unsigned_less[of c, where ?'a = nat] by simp
  then have "unat c < 2 ^ 32"
    by simp
  then show ?thesis
    by (simp add: unsigned_ucast_eq take_bit_nat_eq_self)
qed

lemma unat_chan2: "unat (ucast (c :: u16) * 2 :: u32) = unat c * 2"
proof -
  have "unat c < 2 ^ 16"
    using unsigned_less[of c, where ?'a = nat] by simp
  then show ?thesis
    by (simp add: unat_word_ariths unat_ucast_u16)
qed

lemma sourceInv_bound:
  assumes "sourceInv s"
  shows "unat (numSamples s) < 2 ^ 31"
proof -
  have c: "1 \<le> unat (numChannels s)"
    using assms by (simp add: sourceInv_def unat_gt_0 Suc_le_eq)
  have "unat (numSamples s) * 2 * 1 \<le> unat (numSamples s) * 2 * unat (numChannels s)"
    using c by (intro mult_le_mono2)
  also have "\<dots> \<le> unat (wavSize s)"
    using assms by (simp add: sourceInv_def mult.assoc)
  also have "\<dots> < 2 ^ 32"
    using unsigned_less[of "wavSize s", where ?'a = nat] by simp
  finally show ?thesis by simp
qed

lemma getWAVData_inv:
  assumes "getWAVData u f s = Some (Returned 0, s', f')"
  shows "sourceInv s'"
proof -
  have div: "unat (ws div (ucast nc * 2 :: u32)) * (2 * unat nc) \<le> unat ws" for ws :: u32 and nc :: u16
    by (simp add: unat_div unat_chan2 mult.commute)
  have nz: "nc \<noteq> 0" if "ucast nc * 2 \<noteq> (0 :: u32)" for nc :: u16
    using that by auto
  show ?thesis
    using assms div nz
    by (auto simp add: getWAVData_def Let_def sourceInv_def
        split: prod.splits if_splits Option.bind_splits)
qed

lemma setEnd_simps [simp]:
  "numChannels (setEnd x s) = numChannels s"
  "isLooped (setEnd x s) = isLooped s"
  "loopStart (setEnd x s) = loopStart s"
  "sampleRate (setEnd x s) = sampleRate s"
  "customSampleRate (setEnd x s) = customSampleRate s"
  "filename (setEnd x s) = filename s"
  by (simp_all add: setEnd_def Let_def)

lemma setEnd_numSamples:
  "numSamples (setEnd x s) = (if numSamples s < ucast x then numSamples s else ucast x)"
  by (simp add: setEnd_def Let_def)

lemma setEnd_wavSize:
  "wavSize (setEnd x s) = numSamples (setEnd x s) * 2 * ucast (numChannels s)"
  by (simp add: setEnd_def Let_def)

lemma setEnd_le: "numSamples (setEnd x s) \<le> numSamples s"
  by (simp add: setEnd_numSamples not_less)

lemma setEnd_exact:
  assumes "sourceInv s"
  shows "unat (wavSize (setEnd x s)) = unat (numSamples (setEnd x s)) * (2 * unat (numChannels s))"
proof -
  define n where "n = numSamples (setEnd x s)"
  have "unat n \<le> unat (numSamples s)"
    using setEnd_le[of x s] by (simp add: n_def word_le_nat_alt)
  then have "unat n * (2 * unat (numChannels s)) \<le> unat (numSamples s) * (2 * unat (numChannels s))"
    by (rule mult_le_mono1)
  also have "\<dots> \<le> unat (wavSize s)"
    using assms by (simp add: sourceInv_def)
  also have "\<dots> < 2 ^ 32"
    using unsigned_less[of "wavSize s", where ?'a = nat] by simp
  finally have lt: "unat n * (2 * unat (numChannels s)) < 2 ^ 32" .
  define d :: u32 where "d = ucast (numChannels s) * 2"
  have d: "unat d = unat (numChannels s) * 2"
    by (simp add: d_def unat_chan2)
  have "unat n * unat d < 2 ^ LENGTH(32)"
    using lt by (simp add: d mult.commute)
  then have "unat (n * d) = unat n * unat d"
    using unat_mult_lem[of n d] by blast
  moreover have "n * 2 * ucast (numChannels s) = n * d"
    by (simp add: d_def mult.commute mult.left_commute)
  ultimately show ?thesis
    by (simp add: setEnd_wavSize n_def[symmetric] d mult.commute)
qed

lemma setEnd_inv:
  assumes "sourceInv s"
  shows "sourceInv (setEnd x s)"
  using assms setEnd_exact[OF assms, of x] by (simp add: sourceInv_def)

lemma assignValue_inv:
  assumes "assignValue fp c1 c2 s = (ex, s')" and "sourceInv s"
  shows "sourceInv s'"
proof -
  have keep: "sourceInv (s\<lparr>isLooped := a\<rparr>)" "sourceInv (s\<lparr>filename := b\<rparr>)"
    "sourceInv (s\<lparr>loopStart := c\<rparr>)" "sourceInv (s\<lparr>customSampleRate := d\<rparr>)" for a b c d
    using assms(2) by (simp_all add: sourceInv_def)
  show ?thesis
    using assms(1) keep setEnd_inv[OF assms(2)] assms(2)
    by (auto simp add: assignValue_def Let_def split: if_splits option.splits)
qed

text \<open>One turn of the loop over the arguments, for an option of two characters.\<close>

lemma optLoop_step:
  assumes "count < length argv" and "argv ! count \<noteq> []" and "hd (argv ! count) = CHR ''-''"
    and "length (argv ! count) = 2"
  shows "optLoop fp argv count s =
     (let a = argv ! count;
          valued = (a ! 1 \<noteq> CHR ''n'' \<and> a ! 1 \<noteq> CHR ''h'');
          r = (if length argv - 1 = count
               then (if valued then (Returned 1, s) else assignValue fp a None s)
               else assignValue fp a (Some (argv ! (count + 1))) s);
          count1 = (if valued then count + 1 else count)
      in if fst r = Crashed \<or> length argv \<le> count1 then (Crashed, snd r)
         else if fst r = Returned 1 then (Returned 1, snd r)
         else optLoop fp argv (count1 + 1) (snd r))"
  using assms
  by (subst optLoop.simps) (simp add: Let_def split_beta)

lemma optLoop_stop:
  assumes "\<not> (count < length argv \<and> argv ! count \<noteq> [] \<and> hd (argv ! count) = CHR ''-''
             \<and> length (argv ! count) = 2)"
  shows "optLoop fp argv count s = (if count < length argv then Returned 1 else Returned 0, s)"
  using assms
  by (subst optLoop.simps) (auto simp add: Let_def)

text \<open>What every option keeps, the loop over the arguments keeps.\<close>

lemma optLoop_preserves:
  assumes "\<And>c1 c2 t. P t \<Longrightarrow> P (snd (assignValue fp c1 c2 t))"
  shows "P s \<Longrightarrow> P (snd (optLoop fp argv count s))"
proof (induction "length argv - count" arbitrary: count s rule: less_induct)
  case less
  show ?case
  proof (cases "count < length argv \<and> argv ! count \<noteq> [] \<and> hd (argv ! count) = CHR ''-''
                 \<and> length (argv ! count) = 2")
    case False
    then show ?thesis
      using less.prems by (simp add: optLoop_stop)
  next
    case True
    define a where "a = argv ! count"
    define valued where "valued = (a ! 1 \<noteq> CHR ''n'' \<and> a ! 1 \<noteq> CHR ''h'')"
    define r where "r = (if length argv - 1 = count
                         then (if valued then (Returned 1, s) else assignValue fp a None s)
                         else assignValue fp a (Some (argv ! (count + 1))) s)"
    define count1 where "count1 = (if valued then count + 1 else count)"
    have inv1: "P (snd r)"
      using assms[OF less.prems] less.prems by (simp add: r_def)
    have unfold: "optLoop fp argv count s =
        (if fst r = Crashed \<or> length argv \<le> count1 then (Crashed, snd r)
         else if fst r = Returned 1 then (Returned 1, snd r)
         else optLoop fp argv (count1 + 1) (snd r))"
      using True
      by (simp add: optLoop_step Let_def a_def valued_def r_def count1_def)
    show ?thesis
    proof (cases "fst r = Crashed \<or> length argv \<le> count1 \<or> fst r = Returned 1")
      case True
      then show ?thesis
        using inv1 unfolding unfold by (auto split: if_splits)
    next
      case False
      have "length argv - (count1 + 1) < length argv - count"
        using True by (auto simp add: count1_def)
      then have "P (snd (optLoop fp argv (count1 + 1) (snd r)))"
        using inv1 by (rule less.hyps)
      then show ?thesis
        using False unfolding unfold by simp
    qed
  qed
qed

lemma optLoop_inv:
  assumes "optLoop fp argv count s = (ex, s')" and "sourceInv s"
  shows "sourceInv s'"
proof -
  have "sourceInv (snd (assignValue fp c1 c2 t))" if "sourceInv t" for c1 c2 t
    using assignValue_inv[OF surjective_pairing that] .
  then have "sourceInv (snd (optLoop fp argv count s))"
    using assms(2) by (rule optLoop_preserves)
  then show ?thesis
    using assms(1) by simp
qed

text \<open>\<open>-n\<close> clears \<open>isLooped\<close>, and nothing sets it again.\<close>

lemma assignValue_n: "assignValue fp ''-n'' c2 s = (Returned 0, s\<lparr>isLooped := 0\<rparr>)"
  by (simp add: assignValue_def)

lemma assignValue_unlooped:
  assumes "isLooped s = 0"
  shows "isLooped (snd (assignValue fp c1 c2 s)) = 0"
  using assms by (simp add: assignValue_def Let_def split: option.splits)

lemma optLoop_unlooped:
  assumes "isLooped s = 0"
  shows "isLooped (snd (optLoop fp argv count s)) = 0"
  using assignValue_unlooped assms by (rule optLoop_preserves)


section \<open>The run on the small input\<close>

lemma ex_wav_bytes:
  "ex_wav = [82, 73, 70, 70, 48, 0, 0, 0, 87, 65, 86, 69, 102, 109, 116, 32, 16, 0, 0, 0,
             1, 0, 2, 0, 0, 125, 0, 0, 0, 244, 1, 0, 4, 0, 16, 0, 100, 97, 116, 97, 12, 0, 0, 0,
             0x01, 0x02, 0x11, 0x12, 0x03, 0x04, 0x13, 0x14, 0x05, 0x06, 0x15, 0x16]"
  by (simp add: ex_wav_def bytes_of_def byte_of_char_def le32_def le16_def drop_bit_eq_div)

lemma tag_bytes:
  "bytes_of ''RIFF'' = [82, 73, 70, 70]" "bytes_of ''WAVE'' = [87, 65, 86, 69]"
  "bytes_of ''fmt '' = [102, 109, 116, 32]" "bytes_of ''data'' = [100, 97, 116, 97]"
  by (simp_all add: bytes_of_def byte_of_char_def)

lemma ex_writeAST_gen:
  "writeAST ex_env ex_src (ex_state\<lparr>loopStart := a, isLooped := b\<rparr>) =
     (0, ex_final\<lparr>loopStart := (if b = 0 \<or> 3 \<le> a then 0 else a), isLooped := b\<rparr>,
      Some (''in.ast'',
            printHeader (ex_final\<lparr>loopStart := (if b = 0 \<or> 3 \<le> a then 0 else a), isLooped := b\<rparr>)
            @ printAudio (heap ex_env) ex_src
                (ex_final\<lparr>loopStart := (if b = 0 \<or> 3 \<le> a then 0 else a), isLooped := b\<rparr>)))"
  by (simp add: writeAST_def calcBlocks_def fixExtension_def fixLastBlock_def fixLoopStart_def
      dropLoop_def strcmpi_eq_def tolower_c_def blockSize_def ex_state_def ex_final_def
      ex_env_def Let_def)

lemma ex_writeAST:
  "writeAST ex_env ex_src ex_state =
     (0, ex_final,
      Some (''in.ast'', printHeader ex_final @ printAudio (heap ex_env) ex_src ex_final))"
  using ex_writeAST_gen[where a=0 and b=65535] by (simp add: ex_state_def ex_final_def)

lemma ex_writeAST_unlooped:
  "writeAST ex_env ex_src (ex_state\<lparr>loopStart := 2, isLooped := 0\<rparr>) =
     (0, ex_final\<lparr>isLooped := 0\<rparr>,
      Some (''in.ast'', printHeader (ex_final\<lparr>isLooped := 0\<rparr>)
                        @ printAudio (heap ex_env) ex_src (ex_final\<lparr>isLooped := 0\<rparr>)))"
  using ex_writeAST_gen[where a=2 and b=0] by (simp add: ex_state_def ex_final_def)

lemma ex_writeAST_late_loop:
  "writeAST ex_env ex_src (ex_state\<lparr>loopStart := 5\<rparr>) =
     (0, ex_final,
      Some (''in.ast'', printHeader ex_final @ printAudio (heap ex_env) ex_src ex_final))"
  using ex_writeAST_gen[where a=5 and b=65535] by (simp add: ex_state_def ex_final_def)

section \<open>The layout\<close>

lemma writeAST_padding:
  assumes "writeAST e src s = (rc, s', out)"
  shows "even (unat (padding s')) \<and> unat (padding s') \<le> 30
         \<and> (unat (excBlkSz s') + unat (padding s')) mod 32 = 0"
proof -
  define r where "r = unat (numSamples s * 2) mod 10080"
  have s': "s' = fst (snd (writeAST e src s))"
    using assms by simp
  have ev: "even r"
    unfolding r_def using unat_dbl_even[of "numSamples s"] by (simp add: dvd_mod_iff)
  have p: "unat (padding s') = (32 - r mod 32) mod 32"
    by (simp add: s' writeAST_fields calcBlocks_padding r_def)
  have "unat (excBlkSz s') = r \<or> unat (excBlkSz s') = 10080 \<and> r = 0"
    using writeAST_excBlkSz[of e src s]
    by (auto simp add: s' calcBlocks_excBlkSz r_def blockSize_def word_unat_eq_iff)
  then show ?thesis
  proof
    assume "unat (excBlkSz s') = r"
    then show ?thesis using pad_arith[OF ev] by (simp add: p)
  next
    assume "unat (excBlkSz s') = 10080 \<and> r = 0"
    then show ?thesis by (simp add: p)
  qed
qed

text \<open>
  C3. Whatever the object holds when \<open>writeAST\<close> is called and however the call ends,
  the padding it computes is an even number from 0 to 30, and the size of the last block
  plus the padding is a multiple of 32.
\<close>

theorem padding_even_aligned:
  assumes "writeAST e src s = (rc, s', out)"
  shows "even (unat (padding s')) \<and> unat (padding s') \<le> 30
         \<and> (unat (excBlkSz s') + unat (padding s')) mod 32 = 0"
  using assms by (rule writeAST_padding)

theorem padding_even_aligned_witness:
  "writeAST ex_env ex_src ex_state =
     (0, ex_final,
      Some (''in.ast'', printHeader ex_final @ printAudio (heap ex_env) ex_src ex_final))
   \<and> even (unat (padding ex_final)) \<and> unat (padding ex_final) \<le> 30
   \<and> (unat (excBlkSz ex_final) + unat (padding ex_final)) mod 32 = 0"
  by (rule conjI[OF ex_writeAST padding_even_aligned[OF ex_writeAST]])


text \<open>
  A run of \<open>grabInfo\<close> that returns 0 has read the header, gone through the arguments
  and called \<open>writeAST\<close> on an object that satisfies the invariant.
\<close>

lemma grabInfo_success:
  assumes "grabInfo fp e u argv = Some (Returned 0, s', out)"
  shows "\<exists>s3 src. sourceInv s3 \<and> writeAST e src s3 = (0, s', out)"
proof -
  from assms obtain bytes wavE s2 src s3 where
    g: "getWAVData u \<lparr>contents = bytes, pos = 0\<rparr>
          ((u_this u)\<lparr>isLooped := 65535, loopStart := 0,
                      filename := take (length (argv ! 1) - wavE) (argv ! 1) @ ''.ast''\<rparr>)
        = Some (Returned 0, s2, src)"
    and o: "optLoop fp argv 2 s2 = (Returned 0, s3)"
    and w: "writeAST e src s3 = (0, s', out)"
    by (auto simp add: grabInfo_def Let_def
        split: if_splits option.splits prod.splits Option.bind_splits)
  have "sourceInv s3"
    using optLoop_inv[OF o getWAVData_inv[OF g]] .
  then show ?thesis
    using w by blast
qed

lemma fread_full:
  assumes "pos f + n \<le> length (contents f)" and "length buf = n"
  shows "fread buf n f = (1, take n (drop (pos f) (contents f)), f\<lparr>pos := pos f + n\<rparr>)"
  using assms by (auto simp add: fread_def Let_def min_def)

lemma fread32_full:
  assumes "pos f + 4 \<le> length (contents f)"
  shows "fread32 old f = (1, rd32 (take 4 (drop (pos f) (contents f))), f\<lparr>pos := pos f + 4\<rparr>)"
  using fread_full[OF assms, of "le32 old"] by (simp add: fread32_def)

lemma fread16_full:
  assumes "pos f + 2 \<le> length (contents f)"
  shows "fread16 old f = (1, rd16 (take 2 (drop (pos f) (contents f))), f\<lparr>pos := pos f + 2\<rparr>)"
  using fread_full[OF assms, of "le16 old"] by (simp add: fread16_def)

lemma ex_wav_length: "length ex_wav = 56"
  by (simp add: ex_wav_bytes)

lemma ex_wav_slices:
  "take 4 ex_wav = [82, 73, 70, 70]"
  "take 4 (drop 8 ex_wav) = [87, 65, 86, 69]"
  "take 4 (drop 12 ex_wav) = [102, 109, 116, 32]"
  "take 4 (drop 16 ex_wav) = [16, 0, 0, 0]"
  "take 2 (drop 20 ex_wav) = [1, 0]"
  "take 2 (drop 22 ex_wav) = [2, 0]"
  "take 4 (drop 24 ex_wav) = [0, 125, 0, 0]"
  "take 2 (drop 34 ex_wav) = [16, 0]"
  "take 4 (drop 36 ex_wav) = [100, 97, 116, 97]"
  "take 4 (drop 40 ex_wav) = [12, 0, 0, 0]"
  by (simp_all add: ex_wav_bytes)

lemma rd_values:
  "rd32 [16, 0, 0, 0] = 16" "rd16 [1, 0] = 1" "rd16 [2, 0] = 2" "rd32 [0, 125, 0, 0] = 32000"
  "rd16 [16, 0] = 16" "rd32 [12, 0, 0, 0] = 12"
  by (simp_all add: rd32_def rd16_def)

lemma ex_getWAVData:
  "getWAVData u \<lparr>contents = ex_wav, pos = 0\<rparr> s =
     Some (Returned 0,
           s\<lparr>numChannels := 2, sampleRate := 32000, customSampleRate := 32000,
             wavSize := 12, numSamples := 3\<rparr>,
           \<lparr>contents = ex_wav, pos = 44\<rparr>)"
proof -
  have fmt: "findChunk [102, 109, 116, 32] \<lparr>contents = ex_wav, pos = 12\<rparr>
               = Some (True, \<lparr>contents = ex_wav, pos = 16\<rparr>)"
    by (subst findChunk.simps) (simp add: fread_full ex_wav_length ex_wav_slices)
  have data: "findChunk [100, 97, 116, 97] \<lparr>contents = ex_wav, pos = 12\<rparr>
               = Some (True, \<lparr>contents = ex_wav, pos = 40\<rparr>)"
    apply (subst findChunk.simps)
    apply (simp add: fread_full fread32_full ex_wav_length ex_wav_slices rd_values fseek_cur_def)
    apply (subst findChunk.simps)
    apply (simp add: fread_full fread32_full ex_wav_length ex_wav_slices rd_values fseek_cur_def)
    done
  show ?thesis
    by (simp add: getWAVData_def fread_full fread16_full fread32_full fseek_set_def fseek_cur_def
        ex_wav_length ex_wav_slices rd_values tag_bytes fmt data)
qed

lemma ex_env_simps:
  "fopen_rb ex_env ''in.wav'' = Some ex_wav" "fopen_wb ex_env name = True"
  by (simp_all add: ex_env_def)

lemma ex_grabInfo:
  "grabInfo ex_fpu ex_env ex_indet [''ASTCreate.exe'', ''in.wav''] =
     Some (Returned 0, ex_final,
           Some (''in.ast'', printHeader ex_final @ printAudio (heap ex_env) ex_src ex_final))"
proof -
  define s1 where "s1 = (u_this ex_indet)\<lparr>isLooped := 65535, loopStart := 0,
                           filename := ''in.wav'', filename := ''in.ast''\<rparr>"
  have s: "s1\<lparr>numChannels := 2, sampleRate := 32000, customSampleRate := 32000,
              wavSize := 12, numSamples := 3\<rparr> = ex_state"
    by (simp add: ex_state_def s1_def ex_indet_def)
  have g: "getWAVData ex_indet \<lparr>contents = ex_wav, pos = 0\<rparr> s1
             = Some (Returned 0, ex_state, ex_src)"
    by (simp add: ex_getWAVData s ex_src_def)
  have o: "optLoop ex_fpu [''ASTCreate.exe'', ''in.wav''] 2 ex_state = (Returned 0, ex_state)"
    by (subst optLoop.simps) simp
  have x: "wavExtension ''in.wav'' = Some 4"
    by (simp add: wavExtension_def)
  show ?thesis
    unfolding grabInfo_def Let_def
    by (simp add: ex_env_simps x s1_def[symmetric] g o ex_writeAST)
qed


section \<open>The number of blocks and the size of the last block\<close>

text \<open>
  The size of the last block after \<open>writeAST\<close>: the two early returns of lines 389 to
  398 leave it as line 373 computed it, and every later one has passed lines 401 and 402.
\<close>

lemma fixExtension_calcBlocks: "filename (fixExtension (calcBlocks s)) = filename (fixExtension s)"
  by (simp add: fixExtension_def Let_def)

lemma writeAST_excBlkSz_cases:
  "excBlkSz (fst (snd (writeAST e src s))) =
     (if strcmpi_eq (filename (fixExtension s)) ''.ast'' \<or> numBlocks (calcBlocks s) = 0
      then excBlkSz (calcBlocks s)
      else if excBlkSz (calcBlocks s) = 0 then blockSize else excBlkSz (calcBlocks s))"
  by (simp add: writeAST_def Let_def fixLastBlock_def fixExtension_calcBlocks)

lemma writeAST_early:
  assumes "strcmpi_eq (filename (fixExtension s)) ''.ast'' \<or> numBlocks (calcBlocks s) = 0"
  shows "fst (writeAST e src s) = 1" and "snd (snd (writeAST e src s)) = None"
  using assms by (auto simp add: writeAST_def Let_def fixExtension_calcBlocks)

lemma ex_full_writeAST:
  "writeAST ex_env ex_src ex_full =
     (0, ex_full_final,
      Some (''in.ast'', printHeader ex_full_final @ printAudio (heap ex_env) ex_src ex_full_final))"
  by (simp add: writeAST_def calcBlocks_def fixExtension_def fixLastBlock_def fixLoopStart_def
      dropLoop_def strcmpi_eq_def tolower_c_def blockSize_def ex_state_def ex_full_def
      ex_full_final_def ex_env_def Let_def)

lemma ex_empty_writeAST:
  "writeAST ex_env2 \<lparr>contents = ex_empty, pos = 44\<rparr> ex_empty_final
     = (1, ex_empty_final, None)"
  by (simp add: writeAST_def calcBlocks_def fixExtension_def strcmpi_eq_def tolower_c_def
      blockSize_def ex_empty_final_def Let_def)

text \<open>
  C2. \<open>writeAST\<close> is called on an object that satisfies the invariant, which
  \<open>getWAVData\<close> sets up and the options keep (\<open>getWAVData_inv\<close>, \<open>optLoop_inv\<close>).
  However the call ends, it leaves the sample count as it found it, and the number of
  blocks is that count times two, divided by 10080 and rounded up. The size of the last
  block is the remainder of the division when that is not zero. When the remainder is
  zero the size is 10080, provided there is a sample and the output name is more than
  the extension \<open>.ast\<close>; when there is no sample, or the name is the extension alone,
  the call fails at lines 389 to 398, before line 401, and the size stays 0.
\<close>

theorem block_count_and_last_block:
  assumes "sourceInv s" and "writeAST e src s = (rc, s', out)"
  shows "numSamples s' = numSamples s
         \<and> int (unat (numBlocks s')) = \<lceil>real (unat (numSamples s) * 2) / 10080\<rceil>
         \<and> unat (excBlkSz s') =
             (if (unat (numSamples s) * 2) mod 10080 = 0 \<and> numSamples s \<noteq> 0
                 \<and> \<not> strcmpi_eq (filename (fixExtension s)) ''.ast''
              then 10080 else (unat (numSamples s) * 2) mod 10080)
         \<and> (numSamples s = 0 \<or> strcmpi_eq (filename (fixExtension s)) ''.ast''
              \<longrightarrow> rc = 1 \<and> out = None)"
proof -
  define n where "n = unat (numSamples s) * 2"
  have s': "s' = fst (snd (writeAST e src s))" and rc: "rc = fst (writeAST e src s)"
    and out: "out = snd (snd (writeAST e src s))"
    using assms(2) by simp_all
  have same: "numSamples s' = numSamples s"
    by (simp add: s' writeAST_fields)
  have dbl: "unat (numSamples s * 2) = n"
    using sourceInv_bound[OF assms(1)] by (simp add: unat_word_ariths n_def)
  have nbn: "unat (numBlocks (calcBlocks s)) = (n + (10080 - 1)) div 10080"
    by (simp add: calcBlocks_numBlocks dbl)
  have "unat (numBlocks s') = (n + (10080 - 1)) div 10080"
    by (simp add: s' writeAST_fields nbn)
  then have nb: "int (unat (numBlocks s')) = \<lceil>real n / real 10080\<rceil>"
    by (subst ceil_real_nat) simp_all
  have "(n + 10079) div 10080 = 0 \<longleftrightarrow> n = 0"
    by (simp add: div_eq_0_iff)
  then have nb0: "numBlocks (calcBlocks s) = 0 \<longleftrightarrow> numSamples s = 0"
    using nbn by (simp add: unat_eq_0[symmetric] n_def)
  have exc0: "excBlkSz (calcBlocks s) = 0 \<longleftrightarrow> n mod 10080 = 0"
    using calcBlocks_excBlkSz[of s] by (simp add: unat_eq_0[symmetric] dbl)
  have zero: "n mod 10080 = 0" if "numSamples s = 0"
    using that by (simp add: n_def)
  have exc: "unat (excBlkSz s') =
               (if n mod 10080 = 0 \<and> numSamples s \<noteq> 0
                   \<and> \<not> strcmpi_eq (filename (fixExtension s)) ''.ast''
                then 10080 else n mod 10080)"
    unfolding s' writeAST_excBlkSz_cases nb0
    using zero by (auto simp add: exc0 blockSize_def calcBlocks_excBlkSz dbl)
  have early: "rc = 1 \<and> out = None"
    if "numSamples s = 0 \<or> strcmpi_eq (filename (fixExtension s)) ''.ast''"
    using that writeAST_early[of s e src] nb0 by (auto simp add: rc out)
  show ?thesis
    using same nb exc early by (simp add: n_def)
qed

text \<open>
  The witness: the three stereo frames of the small input make one block of 6 bytes per
  channel, 5040 stereo frames make one block of 10080, and without a sample there is no
  block and the call fails.
\<close>

theorem block_count_and_last_block_witness:
  "sourceInv ex_state
   \<and> writeAST ex_env ex_src ex_state =
       (0, ex_final,
        Some (''in.ast'', printHeader ex_final @ printAudio (heap ex_env) ex_src ex_final))
   \<and> numSamples ex_final = 3 \<and> unat (numBlocks ex_final) = 1 \<and> unat (excBlkSz ex_final) = 6
   \<and> sourceInv ex_full
   \<and> writeAST ex_env ex_src ex_full =
       (0, ex_full_final,
        Some (''in.ast'',
              printHeader ex_full_final @ printAudio (heap ex_env) ex_src ex_full_final))
   \<and> numSamples ex_full_final = 5040 \<and> unat (numBlocks ex_full_final) = 1
   \<and> unat (excBlkSz ex_full_final) = 10080
   \<and> sourceInv ex_empty_final
   \<and> writeAST ex_env2 \<lparr>contents = ex_empty, pos = 44\<rparr> ex_empty_final
       = (1, ex_empty_final, None)
   \<and> numSamples ex_empty_final = 0 \<and> unat (numBlocks ex_empty_final) = 0
   \<and> unat (excBlkSz ex_empty_final) = 0"
proof -
  have i: "sourceInv ex_state" and j: "sourceInv ex_full"
    by (simp_all add: sourceInv_def ex_state_def ex_full_def)
  have c3: "\<lceil>real (unat (numSamples ex_state) * 2) / 10080\<rceil> = 1"
    by (simp add: ex_state_def ceiling_eq_iff)
  have c5040: "\<lceil>real (unat (numSamples ex_full) * 2) / 10080\<rceil> = 1"
    by (simp add: ex_full_def)
  have n: "numSamples ex_state = 3" "numSamples ex_full = 5040"
    "unat (numSamples ex_state) = 3" "unat (numSamples ex_full) = 5040"
    "filename (fixExtension ex_state) = ''in.ast''" "filename (fixExtension ex_full) = ''in.ast''"
    by (simp_all add: ex_state_def ex_full_def fixExtension_def strcmpi_eq_def tolower_c_def)
  have ne: "\<not> strcmpi_eq ''in.ast'' ''.ast''"
    by (simp add: strcmpi_eq_def)
  note t1 = block_count_and_last_block[OF i ex_writeAST]
  note t2 = block_count_and_last_block[OF j ex_full_writeAST]
  have a1: "numSamples ex_final = 3"
    using t1[THEN conjunct1] by (simp only: n)
  have a2: "unat (numBlocks ex_final) = 1"
    using t1[THEN conjunct2, THEN conjunct1] unfolding c3 by (simp only: of_nat_eq_1_iff)
  have a3: "unat (excBlkSz ex_final) = 6"
    using t1[THEN conjunct2, THEN conjunct2, THEN conjunct1] unfolding n by (simp add: ne)
  have b1: "numSamples ex_full_final = 5040"
    using t2[THEN conjunct1] by (simp only: n)
  have b2: "unat (numBlocks ex_full_final) = 1"
    using t2[THEN conjunct2, THEN conjunct1] unfolding c5040 by (simp only: of_nat_eq_1_iff)
  have b3: "unat (excBlkSz ex_full_final) = 10080"
    using t2[THEN conjunct2, THEN conjunct2, THEN conjunct1] unfolding n by (simp add: ne)
  have k: "sourceInv ex_empty_final"
    by (simp add: sourceInv_def ex_empty_final_def)
  have z: "numSamples ex_empty_final = 0" "unat (numSamples ex_empty_final) = 0"
    by (simp_all add: ex_empty_final_def)
  have c0: "\<lceil>real (unat (numSamples ex_empty_final) * 2) / 10080\<rceil> = 0"
    by (simp add: z)
  note t3 = block_count_and_last_block[OF k ex_empty_writeAST]
  have d2: "unat (numBlocks ex_empty_final) = 0"
    using t3[THEN conjunct2, THEN conjunct1] unfolding c0 by (simp only: of_nat_eq_0_iff)
  have d3: "unat (excBlkSz ex_empty_final) = 0"
    using t3[THEN conjunct2, THEN conjunct2, THEN conjunct1] unfolding z by simp
  show ?thesis
    by (intro conjI i j k ex_writeAST ex_full_writeAST ex_empty_writeAST a1 a2 a3 b1 b2 b3
        z(1) d2 d3)
qed

text \<open>The header of \<open>ex_empty\<close>, read by \<open>getWAVData\<close>.\<close>

lemma ex_empty_bytes:
  "ex_empty = [82, 73, 70, 70, 36, 0, 0, 0, 87, 65, 86, 69, 102, 109, 116, 32, 16, 0, 0, 0,
               1, 0, 2, 0, 0, 125, 0, 0, 0, 244, 1, 0, 4, 0, 16, 0, 100, 97, 116, 97, 0, 0, 0, 0]"
  by (simp add: ex_empty_def bytes_of_def byte_of_char_def le32_def le16_def drop_bit_eq_div)

lemma ex_empty_length: "length ex_empty = 44"
  by (simp add: ex_empty_bytes)

lemma ex_empty_slices:
  "take 4 ex_empty = [82, 73, 70, 70]"
  "take 4 (drop 8 ex_empty) = [87, 65, 86, 69]"
  "take 4 (drop 12 ex_empty) = [102, 109, 116, 32]"
  "take 4 (drop 16 ex_empty) = [16, 0, 0, 0]"
  "take 2 (drop 20 ex_empty) = [1, 0]"
  "take 2 (drop 22 ex_empty) = [2, 0]"
  "take 4 (drop 24 ex_empty) = [0, 125, 0, 0]"
  "take 2 (drop 34 ex_empty) = [16, 0]"
  "take 4 (drop 36 ex_empty) = [100, 97, 116, 97]"
  "take 4 (drop 40 ex_empty) = [0, 0, 0, 0]"
  by (simp_all add: ex_empty_bytes)

lemma ex_empty_getWAVData:
  "getWAVData u \<lparr>contents = ex_empty, pos = 0\<rparr> s =
     Some (Returned 0,
           s\<lparr>numChannels := 2, sampleRate := 32000, customSampleRate := 32000,
             wavSize := 0, numSamples := 0\<rparr>,
           \<lparr>contents = ex_empty, pos = 44\<rparr>)"
proof -
  have r: "rd32 [0, 0, 0, 0] = 0"
    by (simp add: rd32_def)
  have fmt: "findChunk [102, 109, 116, 32] \<lparr>contents = ex_empty, pos = 12\<rparr>
               = Some (True, \<lparr>contents = ex_empty, pos = 16\<rparr>)"
    by (subst findChunk.simps) (simp add: fread_full ex_empty_length ex_empty_slices)
  have data: "findChunk [100, 97, 116, 97] \<lparr>contents = ex_empty, pos = 12\<rparr>
               = Some (True, \<lparr>contents = ex_empty, pos = 40\<rparr>)"
    apply (subst findChunk.simps)
    apply (simp add: fread_full fread32_full ex_empty_length ex_empty_slices rd_values fseek_cur_def)
    apply (subst findChunk.simps)
    apply (simp add: fread_full fread32_full ex_empty_length ex_empty_slices rd_values fseek_cur_def)
    done
  show ?thesis
    by (simp add: getWAVData_def fread_full fread16_full fread32_full fseek_set_def fseek_cur_def
        ex_empty_length ex_empty_slices rd_values r tag_bytes fmt data)
qed

text \<open>
  On the file without samples the remainder is zero, \<open>writeAST\<close> fails at line 397 and
  the size of the last block is 0, not 10080. So it is on an object with one full block
  of samples whose output name is \<open>.ast\<close>, where \<open>writeAST\<close> fails at line 391.
\<close>

theorem empty_source_last_block:
  "grabInfo ex_fpu ex_env2 ex_indet [''ASTCreate.exe'', ''empty.wav'']
     = Some (Returned 1, ex_empty_final, None)
   \<and> (unat (numSamples ex_empty_final) * 2) mod 10080 = 0
   \<and> unat (excBlkSz ex_empty_final) = 0
   \<and> sourceInv (ex_full\<lparr>filename := ''.ast''\<rparr>)
   \<and> writeAST ex_env ex_src (ex_full\<lparr>filename := ''.ast''\<rparr>)
       = (1, ex_full\<lparr>filename := ''.ast'', excBlkSz := 0, numBlocks := 1, padding := 0,
                     astSize := 20192\<rparr>, None)
   \<and> (unat (numSamples (ex_full\<lparr>filename := ''.ast''\<rparr>)) * 2) mod 10080 = 0"
proof -
  define s1 where "s1 = (u_this ex_indet)\<lparr>isLooped := 65535, loopStart := 0,
                           filename := ''empty.wav'', filename := ''empty.ast''\<rparr>"
  define s2 where "s2 = ex_empty_final"
  have s: "s1\<lparr>numChannels := 2, sampleRate := 32000, customSampleRate := 32000,
              wavSize := 0, numSamples := 0\<rparr> = s2"
    by (simp add: ex_empty_final_def s1_def s2_def ex_indet_def)
  have g: "getWAVData ex_indet \<lparr>contents = ex_empty, pos = 0\<rparr> s1
             = Some (Returned 0, s2, \<lparr>contents = ex_empty, pos = 44\<rparr>)"
    by (simp add: ex_empty_getWAVData s)
  have o: "optLoop ex_fpu [''ASTCreate.exe'', ''empty.wav''] 2 s2 = (Returned 0, s2)"
    by (subst optLoop.simps) simp
  have x: "wavExtension ''empty.wav'' = Some 4"
    by (simp add: wavExtension_def)
  have f: "fopen_rb ex_env2 ''empty.wav'' = Some ex_empty"
    by (simp add: ex_env2_def)
  have w: "writeAST ex_env2 \<lparr>contents = ex_empty, pos = 44\<rparr> s2 = (1, ex_empty_final, None)"
    unfolding s2_def by (rule ex_empty_writeAST)
  have gi: "grabInfo ex_fpu ex_env2 ex_indet [''ASTCreate.exe'', ''empty.wav'']
              = Some (Returned 1, ex_empty_final, None)"
    unfolding grabInfo_def Let_def
    by (simp add: f x s1_def[symmetric] g o w)
  have inv: "sourceInv (ex_full\<lparr>filename := ''.ast''\<rparr>)"
    by (simp add: sourceInv_def ex_full_def ex_state_def)
  have w2: "writeAST ex_env ex_src (ex_full\<lparr>filename := ''.ast''\<rparr>)
       = (1, ex_full\<lparr>filename := ''.ast'', excBlkSz := 0, numBlocks := 1, padding := 0,
                     astSize := 20192\<rparr>, None)"
    by (simp add: writeAST_def calcBlocks_def fixExtension_def strcmpi_eq_def tolower_c_def
        blockSize_def ex_full_def ex_state_def Let_def)
  show ?thesis
    using gi inv w2 by (simp add: ex_empty_final_def ex_full_def)
qed
section \<open>The header\<close>

text \<open>
  C5. In every file that \<open>writeAST\<close> writes, the big-endian word at offset 0x1C is the
  sample count, the same as the word at offset 0x14, and the word at offset 0x20 is the
  size of the last block plus the padding when there is one block, and 10080 otherwise.
\<close>

theorem header_loop_end_and_first_block:
  assumes "writeAST e src s = (rc, s', Some (name, bytes))"
  shows "readBE32 bytes 0x1C = numSamples s' \<and> readBE32 bytes 0x14 = numSamples s'
         \<and> readBE32 bytes 0x20 = (if numBlocks s' = 1 then excBlkSz s' + padding s' else 10080)"
proof -
  have ok: "fst (writeAST e src s) = 0"
    using assms writeAST_fail(1)[of e src s] by (cases "fst (writeAST e src s) = 0") simp_all
  have "bytes = printHeader s' @ printAudio (heap e) src s'"
    using writeAST_ok(5)[OF ok] assms by simp
  then show ?thesis
    by (simp add: header_fields blockSize_def)
qed

theorem header_loop_end_and_first_block_witness:
  "writeAST ex_env ex_src ex_state =
     (0, ex_final,
      Some (''in.ast'', printHeader ex_final @ printAudio (heap ex_env) ex_src ex_final))
   \<and> readBE32 (printHeader ex_final @ printAudio (heap ex_env) ex_src ex_final) 0x1C
       = numSamples ex_final
   \<and> readBE32 (printHeader ex_final @ printAudio (heap ex_env) ex_src ex_final) 0x14
       = numSamples ex_final
   \<and> readBE32 (printHeader ex_final @ printAudio (heap ex_env) ex_src ex_final) 0x20
       = (if numBlocks ex_final = 1 then excBlkSz ex_final + padding ex_final else 10080)"
  by (rule conjI[OF ex_writeAST header_loop_end_and_first_block[OF ex_writeAST]])

text \<open>
  C6. When looping is disabled, whatever loop start the object holds, the file that
  \<open>writeAST\<close> writes has the two bytes 0 at offset 0x0E and the loop start 0 at offset
  0x18.
\<close>

theorem unlooped_header:
  assumes "isLooped s = 0" and "writeAST e src s = (rc, s', Some (name, bytes))"
  shows "take 2 (drop 0x0E bytes) = [0, 0] \<and> readBE32 bytes 0x18 = 0"
proof -
  have ok: "fst (writeAST e src s) = 0"
    using assms(2) writeAST_fail(1)[of e src s] by (cases "fst (writeAST e src s) = 0") simp_all
  have s': "s' = fst (snd (writeAST e src s))"
    using assms(2) by simp
  have b: "bytes = printHeader s' @ printAudio (heap e) src s'"
    using writeAST_ok(5)[OF ok] assms(2) by simp
  have l: "isLooped s' = 0" "loopStart s' = 0"
    using writeAST_ok(4)[OF ok] assms(1) by (simp_all add: s' writeAST_fields)
  have "take 2 (drop 0x0E bytes) = le16 (isLooped s')"
    unfolding b by (rule header_loopflag)
  moreover have "readBE32 bytes 0x18 = loopStart s'"
    unfolding b by (rule header_fields)
  ultimately show ?thesis
    by (simp add: l le16_def)
qed

text \<open>The witness: \<open>-s 2\<close>, then \<open>-n\<close>, on the small input.\<close>

theorem unlooped_header_witness:
  "isLooped (ex_state\<lparr>loopStart := 2, isLooped := 0\<rparr>) = 0
   \<and> assignValue ex_fpu ''-n'' None (snd (assignValue ex_fpu ''-s'' (Some ''2'') ex_state))
       = (Returned 0, ex_state\<lparr>loopStart := 2, isLooped := 0\<rparr>)
   \<and> writeAST ex_env ex_src (ex_state\<lparr>loopStart := 2, isLooped := 0\<rparr>) =
       (0, ex_final\<lparr>isLooped := 0\<rparr>,
        Some (''in.ast'', printHeader (ex_final\<lparr>isLooped := 0\<rparr>)
                          @ printAudio (heap ex_env) ex_src (ex_final\<lparr>isLooped := 0\<rparr>)))
   \<and> take 2 (drop 0x0E (printHeader (ex_final\<lparr>isLooped := 0\<rparr>)
                        @ printAudio (heap ex_env) ex_src (ex_final\<lparr>isLooped := 0\<rparr>))) = [0, 0]
   \<and> readBE32 (printHeader (ex_final\<lparr>isLooped := 0\<rparr>)
               @ printAudio (heap ex_env) ex_src (ex_final\<lparr>isLooped := 0\<rparr>)) 0x18 = 0"
proof -
  have l: "isLooped (ex_state\<lparr>loopStart := 2, isLooped := 0\<rparr>) = 0"
    by simp
  have a: "assignValue ex_fpu ''-n'' None (snd (assignValue ex_fpu ''-s'' (Some ''2'') ex_state))
             = (Returned 0, ex_state\<lparr>loopStart := 2, isLooped := 0\<rparr>)"
    by (simp add: assignValue_def atoi_def isspace_c_def isdigit_c_def)
  show ?thesis
    by (intro conjI l a ex_writeAST_unlooped
        unlooped_header[OF l ex_writeAST_unlooped, THEN conjunct1]
        unlooped_header[OF l ex_writeAST_unlooped, THEN conjunct2])
qed

text \<open>
  C7. When the loop start is not below the sample count, \<open>writeAST\<close> ends as it does for
  the same object with loop start 0, with the same exit code and the same file, and the
  file it writes has the loop start 0 at offset 0x18.
\<close>

theorem late_loop_start_reset:
  assumes "numSamples s \<le> loopStart s"
  shows "fst (writeAST e src s) = fst (writeAST e src (s\<lparr>loopStart := 0\<rparr>))
         \<and> snd (snd (writeAST e src s)) = snd (snd (writeAST e src (s\<lparr>loopStart := 0\<rparr>)))
         \<and> (\<forall>rc s' name bytes. writeAST e src s = (rc, s', Some (name, bytes))
               \<longrightarrow> rc = 0 \<and> loopStart s' = 0 \<and> readBE32 bytes 0x18 = 0)"
proof -
  have c: "calcBlocks (s\<lparr>loopStart := 0\<rparr>) = (calcBlocks s)\<lparr>loopStart := 0\<rparr>"
    by (simp add: calcBlocks_def Let_def)
  have x: "fixExtension (t\<lparr>loopStart := 0\<rparr>) = (fixExtension t)\<lparr>loopStart := 0\<rparr>" for t
    by (simp add: fixExtension_def Let_def)
  have b: "fixLastBlock (t\<lparr>loopStart := 0\<rparr>) = (fixLastBlock t)\<lparr>loopStart := 0\<rparr>" for t
    by (simp add: fixLastBlock_def)
  have l: "fixLoopStart (t\<lparr>loopStart := 0\<rparr>) = fixLoopStart t" if "numSamples t \<le> loopStart t" for t
    using that by (simp add: fixLoopStart_def)
  have "numSamples (fixLastBlock (fixExtension (calcBlocks s)))
          \<le> loopStart (fixLastBlock (fixExtension (calcBlocks s)))"
    using assms by simp
  then have eq: "fixLoopStart (fixLastBlock (fixExtension (calcBlocks (s\<lparr>loopStart := 0\<rparr>))))
          = fixLoopStart (fixLastBlock (fixExtension (calcBlocks s)))"
    by (simp only: c x b l)
  have same: "fst (writeAST e src s) = fst (writeAST e src (s\<lparr>loopStart := 0\<rparr>))
              \<and> snd (snd (writeAST e src s)) = snd (snd (writeAST e src (s\<lparr>loopStart := 0\<rparr>)))"
    unfolding writeAST_def Let_def eq by (simp add: c x)
  have hdr: "rc = 0 \<and> loopStart s' = 0 \<and> readBE32 bytes 0x18 = 0"
    if w: "writeAST e src s = (rc, s', Some (name, bytes))" for rc s' name bytes
  proof -
    have ok: "fst (writeAST e src s) = 0"
      using w writeAST_fail(1)[of e src s] by (cases "fst (writeAST e src s) = 0") simp_all
    have s': "s' = fst (snd (writeAST e src s))"
      using w by simp
    have "bytes = printHeader s' @ printAudio (heap e) src s'"
      using writeAST_ok(5)[OF ok] w by simp
    moreover have "loopStart s' = 0"
      using writeAST_ok(4)[OF ok] assms by (simp add: s')
    ultimately show ?thesis
      using ok w by (simp add: header_fields)
  qed
  show ?thesis
    using same hdr by blast
qed

theorem late_loop_start_reset_witness:
  "numSamples (ex_state\<lparr>loopStart := 5\<rparr>) \<le> loopStart (ex_state\<lparr>loopStart := 5\<rparr>)
   \<and> writeAST ex_env ex_src (ex_state\<lparr>loopStart := 5\<rparr>) =
       (0, ex_final,
        Some (''in.ast'', printHeader ex_final @ printAudio (heap ex_env) ex_src ex_final))
   \<and> fst (writeAST ex_env ex_src (ex_state\<lparr>loopStart := 5\<rparr>))
       = fst (writeAST ex_env ex_src (ex_state\<lparr>loopStart := 5, loopStart := 0\<rparr>))
   \<and> loopStart ex_final = 0
   \<and> readBE32 (printHeader ex_final @ printAudio (heap ex_env) ex_src ex_final) 0x18 = 0"
proof -
  have h: "numSamples (ex_state\<lparr>loopStart := 5\<rparr>) \<le> loopStart (ex_state\<lparr>loopStart := 5\<rparr>)"
    by (simp add: ex_state_def)
  show ?thesis
    using late_loop_start_reset[OF h, of ex_env ex_src] ex_writeAST_late_loop h
    by simp
qed


section \<open>The channel count\<close>

lemma ex_wide_bytes:
  "ex_wide = [82, 73, 70, 70, 70, 0, 0, 0, 87, 65, 86, 69, 102, 109, 116, 32, 16, 0, 0, 0,
              1, 0, 17, 0, 0, 125, 0, 0, 0, 154, 16, 0, 34, 0, 16, 0, 100, 97, 116, 97,
              34, 0, 0, 0] @ replicate 34 0x11"
  by (simp add: ex_wide_def bytes_of_def byte_of_char_def le32_def le16_def drop_bit_eq_div)

lemma ex_wide_length: "length ex_wide = 78"
  by (simp add: ex_wide_bytes)

lemma ex_wide_slices:
  "take 4 ex_wide = [82, 73, 70, 70]"
  "take 4 (drop 8 ex_wide) = [87, 65, 86, 69]"
  "take 4 (drop 12 ex_wide) = [102, 109, 116, 32]"
  "take 4 (drop 16 ex_wide) = [16, 0, 0, 0]"
  "take 2 (drop 20 ex_wide) = [1, 0]"
  "take 2 (drop 22 ex_wide) = [17, 0]"
  "take 4 (drop 24 ex_wide) = [0, 125, 0, 0]"
  "take 2 (drop 34 ex_wide) = [16, 0]"
  "take 4 (drop 36 ex_wide) = [100, 97, 116, 97]"
  "take 4 (drop 40 ex_wide) = [34, 0, 0, 0]"
  by (simp_all add: ex_wide_bytes)

lemma ex_wide_getWAVData:
  "getWAVData u \<lparr>contents = ex_wide, pos = 0\<rparr> s =
     Some (Returned 0,
           s\<lparr>numChannels := 17, sampleRate := 32000, customSampleRate := 32000,
             wavSize := 34, numSamples := 1\<rparr>,
           \<lparr>contents = ex_wide, pos = 44\<rparr>)"
proof -
  have r: "rd16 [17, 0] = 17" "rd32 [34, 0, 0, 0] = 34"
    by (simp_all add: rd32_def rd16_def)
  have fmt: "findChunk [102, 109, 116, 32] \<lparr>contents = ex_wide, pos = 12\<rparr>
               = Some (True, \<lparr>contents = ex_wide, pos = 16\<rparr>)"
    by (subst findChunk.simps) (simp add: fread_full ex_wide_length ex_wide_slices)
  have data: "findChunk [100, 97, 116, 97] \<lparr>contents = ex_wide, pos = 12\<rparr>
               = Some (True, \<lparr>contents = ex_wide, pos = 40\<rparr>)"
    apply (subst findChunk.simps)
    apply (simp add: fread_full fread32_full ex_wide_length ex_wide_slices rd_values fseek_cur_def)
    apply (subst findChunk.simps)
    apply (simp add: fread_full fread32_full ex_wide_length ex_wide_slices rd_values fseek_cur_def)
    done
  show ?thesis
    by (simp add: getWAVData_def fread_full fread16_full fread32_full fseek_set_def fseek_cur_def
        ex_wide_length ex_wide_slices rd_values r tag_bytes fmt data)
qed

text \<open>
  C1. The file \<open>ex_wide\<close> declares seventeen channels. \<open>getWAVData\<close> returns 0 on it
  with the channel count 17 in the object, and the program goes on to write
  \<open>wide.ast\<close> and returns 0: line 327 prints the error and line 328 closes the block
  without the \<open>return 1\<close> that every other check of the function has.
\<close>

theorem seventeen_channels_accepted:
  "getWAVData ex_indet \<lparr>contents = ex_wide, pos = 0\<rparr>
       ((u_this ex_indet)\<lparr>isLooped := 65535, loopStart := 0, filename := ''wide.ast''\<rparr>)
     = Some (Returned 0, ex_wide_final\<lparr>astSize := 0, excBlkSz := 0, numBlocks := 0, padding := 0\<rparr>,
             \<lparr>contents = ex_wide, pos = 44\<rparr>)
   \<and> main ex_fpu ex_env ex_indet [''ASTCreate.exe'', ''wide.wav'']
     = Some (Returned 0,
             Some (''wide.ast'',
                   printHeader ex_wide_final
                   @ printAudio (heap ex_env) \<lparr>contents = ex_wide, pos = 44\<rparr> ex_wide_final))"
proof -
  define s1 where "s1 = (u_this ex_indet)\<lparr>isLooped := 65535, loopStart := 0,
                           filename := ''wide.wav'', filename := ''wide.ast''\<rparr>"
  define s2 where "s2 = ex_wide_final\<lparr>astSize := 0, excBlkSz := 0, numBlocks := 0, padding := 0\<rparr>"
  have s1: "s1 = (u_this ex_indet)\<lparr>isLooped := 65535, loopStart := 0, filename := ''wide.ast''\<rparr>"
    by (simp add: s1_def)
  have s: "s1\<lparr>numChannels := 17, sampleRate := 32000, customSampleRate := 32000,
              wavSize := 34, numSamples := 1\<rparr> = s2"
    by (simp add: ex_wide_final_def s1_def s2_def ex_indet_def)
  have g: "getWAVData ex_indet \<lparr>contents = ex_wide, pos = 0\<rparr> s1
             = Some (Returned 0, s2, \<lparr>contents = ex_wide, pos = 44\<rparr>)"
    by (simp add: ex_wide_getWAVData s)
  have o: "optLoop ex_fpu [''ASTCreate.exe'', ''wide.wav''] 2 s2 = (Returned 0, s2)"
    by (subst optLoop.simps) simp
  have x: "wavExtension ''wide.wav'' = Some 4"
    by (simp add: wavExtension_def)
  have f: "fopen_rb ex_env ''wide.wav'' = Some ex_wide"
    by (simp add: ex_env_def)
  have w: "writeAST ex_env \<lparr>contents = ex_wide, pos = 44\<rparr> s2 =
     (0, ex_wide_final,
      Some (''wide.ast'', printHeader ex_wide_final
            @ printAudio (heap ex_env) \<lparr>contents = ex_wide, pos = 44\<rparr> ex_wide_final))"
    by (simp add: writeAST_def calcBlocks_def fixExtension_def fixLastBlock_def fixLoopStart_def
      dropLoop_def strcmpi_eq_def tolower_c_def blockSize_def ex_wide_final_def s2_def
      ex_env_simps Let_def)
  have "grabInfo ex_fpu ex_env ex_indet [''ASTCreate.exe'', ''wide.wav''] =
     Some (Returned 0, ex_wide_final,
           Some (''wide.ast'', printHeader ex_wide_final
                 @ printAudio (heap ex_env) \<lparr>contents = ex_wide, pos = 44\<rparr> ex_wide_final))"
    unfolding grabInfo_def Let_def
    by (simp add: f x s1_def[symmetric] g o w)
  then show ?thesis
    using g by (simp add: main_def s1 s2_def)
qed

text \<open>The run ends with success and leaves a file, for seventeen channels.\<close>

theorem seventeen_channels_accepted_witness:
  "numChannels ex_wide_final = 17
   \<and> fst (the (main ex_fpu ex_env ex_indet [''ASTCreate.exe'', ''wide.wav''])) = Returned 0
   \<and> snd (the (main ex_fpu ex_env ex_indet [''ASTCreate.exe'', ''wide.wav''])) \<noteq> None"
  using seventeen_channels_accepted by (simp add: ex_wide_final_def)


section \<open>A search that does not end\<close>

text \<open>
  On \<open>ex_loop\<close> the search for \<open>"fmt "\<close> reads the tag and the size at offset 12,
  seeks 8 bytes back and is where it was: the search does not return.
\<close>

lemma ex_loop_bytes:
  "ex_loop = [82, 73, 70, 70, 12, 0, 0, 0, 87, 65, 86, 69, 76, 73, 83, 84, 248, 255, 255, 255]"
  by (simp add: ex_loop_def bytes_of_def byte_of_char_def le32_def drop_bit_eq_div)

lemma ex_loop_turn:
  "(case fread (replicate 4 0) 4 \<lparr>contents = ex_loop, pos = 12\<rparr> of (n, buf, f1) \<Rightarrow>
        if n \<noteq> 1 then Some (False, f1)
        else if buf = [102, 109, 116, 32] then Some (True, f1)
        else (case fread32 0 f1 of (m, chunkSZ, f2) \<Rightarrow>
                if m \<noteq> 1 then Some (False, f2)
                else g (fseek_cur f2 (sint chunkSZ))))
   = g \<lparr>contents = ex_loop, pos = 12\<rparr>"
proof -
  have l: "length ex_loop = 20" by (simp add: ex_loop_bytes)
  have s: "take 4 (drop 12 ex_loop) = [76, 73, 83, 84]" "take 4 (drop 16 ex_loop) = [248, 255, 255, 255]"
    by (simp_all add: ex_loop_bytes)
  have r: "sint (rd32 [248, 255, 255, 255]) = - 8"
    by (simp add: rd32_def)
  show ?thesis
    by (simp add: fread_full fread32_full l s r fseek_cur_def)
qed

lemma ex_loop_aux:
  assumes "findChunk tag f = Some r"
  shows "\<not> (tag = [102, 109, 116, 32] \<and> f = \<lparr>contents = ex_loop, pos = 12\<rparr>)"
proof (rule findChunk.raw_induct[where P = "\<lambda>tag f r.
          \<not> (tag = [102, 109, 116, 32] \<and> f = \<lparr>contents = ex_loop, pos = 12\<rparr>)", OF _ assms])
  fix findChunk' tag f r
  assume IH: "\<And>tag f r. findChunk' tag f = Some r
                 \<Longrightarrow> \<not> (tag = [102, 109, 116, 32] \<and> f = \<lparr>contents = ex_loop, pos = 12\<rparr>)"
    and body: "(case fread (replicate 4 0) 4 f of (n, buf, f1) \<Rightarrow>
        if n \<noteq> 1 then Some (False, f1)
        else if buf = tag then Some (True, f1)
        else (case fread32 0 f1 of (m, chunkSZ, f2) \<Rightarrow>
                if m \<noteq> 1 then Some (False, f2)
                else findChunk' tag (fseek_cur f2 (sint chunkSZ)))) = Some r"
  show "\<not> (tag = [102, 109, 116, 32] \<and> f = \<lparr>contents = ex_loop, pos = 12\<rparr>)"
  proof
    assume "tag = [102, 109, 116, 32] \<and> f = \<lparr>contents = ex_loop, pos = 12\<rparr>"
    then have t: "tag = [102, 109, 116, 32]" and f: "f = \<lparr>contents = ex_loop, pos = 12\<rparr>"
      by simp_all
    have "findChunk' [102, 109, 116, 32] \<lparr>contents = ex_loop, pos = 12\<rparr> = Some r"
      using body unfolding t f ex_loop_turn .
    then show False
      using IH by blast
  qed
qed

lemma ex_loop_never:
  "findChunk [102, 109, 116, 32] \<lparr>contents = ex_loop, pos = 12\<rparr> = None"
  using ex_loop_aux by (cases "findChunk [102, 109, 116, 32] \<lparr>contents = ex_loop, pos = 12\<rparr>") auto

section \<open>The end of the stream\<close>

lemma assignValue_outcome:
  "fst (assignValue fp c1 c2 s) \<in> {Returned 0, Returned 1, Crashed}"
  by (simp add: assignValue_def Let_def split: option.splits)

lemma optLoop_outcome:
  "fst (optLoop fp argv count s) \<in> {Returned 0, Returned 1, Crashed}"
proof (induction "length argv - count" arbitrary: count s rule: less_induct)
  case less
  show ?case
  proof (cases "count < length argv \<and> argv ! count \<noteq> [] \<and> hd (argv ! count) = CHR ''-''
                 \<and> length (argv ! count) = 2")
    case False
    then show ?thesis
      by (simp add: optLoop_stop)
  next
    case True
    define count1 where
      "count1 = (if argv ! count ! 1 \<noteq> CHR ''n'' \<and> argv ! count ! 1 \<noteq> CHR ''h''
                 then count + 1 else count)"
    have "length argv - (count1 + 1) < length argv - count"
      using True by (auto simp add: count1_def)
    then have "fst (optLoop fp argv (count1 + 1) t) \<in> {Returned 0, Returned 1, Crashed}" for t
      using less.hyps by blast
    then show ?thesis
      using True by (simp add: optLoop_step Let_def count1_def)
  qed
qed

lemma assignValue_e_zero:
  assumes "atoi a = 0"
  shows "assignValue fp ''-e'' (Some a) s = (Returned 1, s)"
  using assms by (simp add: assignValue_def)

text \<open>
  Wherever the loop over the arguments stands at or before an \<open>-e\<close> whose value reads
  as 0, or on that value, it ends with exit code 1.
\<close>

lemma optLoop_e_zero:
  assumes "i + 1 < length argv" and "argv ! i = ''-e''" and "atoi (argv ! (i + 1)) = 0"
    and "argv ! (i + 1) = [] \<or> hd (argv ! (i + 1)) \<noteq> CHR ''-''"
  shows "count \<le> i + 1 \<Longrightarrow> fst (optLoop fp argv count s) = Returned 1"
proof (induction "i + 1 - count" arbitrary: count s rule: less_induct)
  case less
  have lt: "count < length argv"
    using less.prems assms(1) by simp
  show ?case
  proof (cases "argv ! count \<noteq> [] \<and> hd (argv ! count) = CHR ''-'' \<and> length (argv ! count) = 2")
    case False
    then show ?thesis
      using lt by (simp add: optLoop_stop)
  next
    case True
    then have ne: "count \<noteq> i + 1"
      using assms(4) by auto
    show ?thesis
    proof (cases "count = i")
      case True
      then show ?thesis
        using assms(1,2,3) by (simp add: optLoop_step assignValue_e_zero Let_def)
    next
      case False
      then have ci: "count < i"
        using ne less.prems by simp
      define a where "a = argv ! count"
      define valued where "valued = (a ! 1 \<noteq> CHR ''n'' \<and> a ! 1 \<noteq> CHR ''h'')"
      define r where "r = (if length argv - 1 = count
                           then (if valued then (Returned 1, s) else assignValue fp a None s)
                           else assignValue fp a (Some (argv ! (count + 1))) s)"
      define count1 where "count1 = (if valued then count + 1 else count)"
      have c1: "count1 + 1 \<le> i + 1" "count1 < length argv"
        using ci assms(1) by (simp_all add: count1_def)
      have unfold: "optLoop fp argv count s =
          (if fst r = Crashed \<or> length argv \<le> count1 then (Crashed, snd r)
           else if fst r = Returned 1 then (Returned 1, snd r)
           else optLoop fp argv (count1 + 1) (snd r))"
        using True lt
        by (simp add: optLoop_step Let_def a_def valued_def r_def count1_def)
      have nolast: "length argv - 1 \<noteq> count"
        using ci assms(1) by simp
      have "fst r \<noteq> Crashed"
        using assignValue_outcome[of fp a "Some (argv ! (count + 1))" s] nolast
        by (auto simp add: r_def assignValue_def Let_def split: if_splits)
      moreover have "i + 1 - (count1 + 1) < i + 1 - count"
        using ci by (auto simp add: count1_def)
      then have "fst (optLoop fp argv (count1 + 1) (snd r)) = Returned 1"
        using c1(1) by (rule less.hyps)
      ultimately show ?thesis
        using c1 unfolding unfold by simp
    qed
  qed
qed

lemma getWAVData_outcome:
  assumes "getWAVData u f s = Some (ex, s', f')"
  shows "ex \<in> {Returned 0, Returned 1, Crashed}"
  using assms
  by (auto simp add: getWAVData_def Let_def split: prod.splits if_splits Option.bind_splits)

text \<open>How a run of \<open>grabInfo\<close> that ends can have gone.\<close>

lemma grabInfo_cases:
  assumes "grabInfo fp e u argv = Some (ex, s', out)"
  obtains (early) "ex = Returned 1" and "out = None"
  | (header) bytes s1 src where
      "getWAVData u \<lparr>contents = bytes, pos = 0\<rparr> s1 = Some (ex, s', src)"
      and "ex \<noteq> Returned 0" and "out = None"
  | (options) bytes s1 s2 src where
      "getWAVData u \<lparr>contents = bytes, pos = 0\<rparr> s1 = Some (Returned 0, s2, src)"
      and "optLoop fp argv 2 s2 = (ex, s')" and "ex \<noteq> Returned 0" and "out = None"
  | (writer) bytes s1 s2 src s3 rc where
      "getWAVData u \<lparr>contents = bytes, pos = 0\<rparr> s1 = Some (Returned 0, s2, src)"
      and "optLoop fp argv 2 s2 = (Returned 0, s3)" and "writeAST e src s3 = (rc, s', out)"
      and "ex = Returned rc"
  using assms
  by (auto simp add: grabInfo_def Let_def
      split: if_splits option.splits prod.splits Option.bind_splits)

text \<open>
  When some argument from the third on is \<open>-e\<close> and the next one reads as 0 and is
  not itself an option, the loop over the arguments ends with exit code 1 from whatever
  object, and no run of the program ends with success or leaves an output file. The
  program does end, without success, when \<open>getWAVData\<close> returns on the input file.
\<close>

lemma end_sample_zero_no_success:
  assumes "2 \<le> i" and "i + 1 < length argv" and "argv ! i = ''-e''"
    and "atoi (argv ! (i + 1)) = 0"
    and "argv ! (i + 1) = [] \<or> hd (argv ! (i + 1)) \<noteq> CHR ''-''"
  shows "fst (optLoop fp argv 2 s) = Returned 1"
    and "main fp e u argv = Some (ex, out) \<Longrightarrow> ex \<noteq> Returned 0 \<and> out = None"
    and "(\<And>bytes t. fopen_rb e (argv ! 1) = Some bytes
            \<Longrightarrow> getWAVData u \<lparr>contents = bytes, pos = 0\<rparr> t \<noteq> None)
         \<Longrightarrow> \<exists>ex. ex \<noteq> Returned 0 \<and> main fp e u argv = Some (ex, None)"
proof -
  have o: "fst (optLoop fp argv 2 t) = Returned 1" for t
    using optLoop_e_zero[OF assms(2-5), of 2 fp t] assms(1) by simp
  show "fst (optLoop fp argv 2 s) = Returned 1"
    by (rule o)
  have fails: "ex \<noteq> Returned 0 \<and> out = None"
    if m: "main fp e u argv = Some (ex, out)" for ex out
  proof -
    obtain ex' s' where g: "grabInfo fp e u argv = Some (ex', s', out)"
      and ex: "ex = (if ex' = Returned 1 then Returned 1
                     else if ex' = Crashed then Crashed else Returned 0)"
      using m assms(2) by (auto simp add: main_def split: if_splits)
    from g have "(ex' = Returned 1 \<or> ex' = Crashed) \<and> out = None"
    proof (cases rule: grabInfo_cases)
      case early
      then show ?thesis by simp
    next
      case (header bytes s1 src)
      then show ?thesis
        using getWAVData_outcome[OF header(1)] by auto
    next
      case (options bytes s1 s2 src)
      then show ?thesis
        using o[of s2] by simp
    next
      case (writer bytes s1 s2 src s3 rc)
      then show ?thesis
        using o[of s2] by simp
    qed
    then show ?thesis
      using ex by auto
  qed
  then show "main fp e u argv = Some (ex, out) \<Longrightarrow> ex \<noteq> Returned 0 \<and> out = None"
    by blast
  show "\<exists>ex. ex \<noteq> Returned 0 \<and> main fp e u argv = Some (ex, None)"
    if r: "\<And>bytes t. fopen_rb e (argv ! 1) = Some bytes
            \<Longrightarrow> getWAVData u \<lparr>contents = bytes, pos = 0\<rparr> t \<noteq> None"
  proof -
    have "grabInfo fp e u argv \<noteq> None"
    proof (cases "fopen_rb e (argv ! 1)")
      case None
      then show ?thesis
        by (simp add: grabInfo_def Let_def)
    next
      case (Some bytes)
      show ?thesis
      proof (cases "wavExtension (argv ! 1)")
        case None
        then show ?thesis
          using Some by (simp add: grabInfo_def Let_def)
      next
        case (Some wavE)
        obtain ex2 s2 src where
          "getWAVData u \<lparr>contents = bytes, pos = 0\<rparr>
             ((u_this u)\<lparr>isLooped := 65535, loopStart := 0, filename := argv ! 1,
                         filename := take (length (argv ! 1) - wavE) (argv ! 1) @ ''.ast''\<rparr>)
           = Some (ex2, s2, src)"
          using r[OF \<open>fopen_rb e (argv ! 1) = Some bytes\<close>]
          by (metis option.exhaust prod_cases3)
        then show ?thesis
          using Some \<open>fopen_rb e (argv ! 1) = Some bytes\<close>
          by (simp add: grabInfo_def Let_def split: prod.splits)
      qed
    qed
    then obtain ex out where "main fp e u argv = Some (ex, out)"
      using assms(2) by (auto simp add: main_def)
    then show ?thesis
      using fails by blast
  qed
qed

text \<open>
  C9. The program reads the header of the input file before it looks at its options
  (line 146, then lines 152 to 180). On the small input \<open>-e 0\<close> ends the run with
  exit code 1 and without an output file. On \<open>ex_loop\<close>, whose first sub-chunk gives
  its size as \<open>0xFFFFFFF8\<close>, the search for \<open>"fmt "\<close> of lines 302 to 311 seeks
  8 bytes back in every turn: with \<open>-e 0\<close> the program does not fail, it never
  returns, whatever the floating-point unit and the memory hold.
\<close>

theorem end_sample_zero_hangs:
  "atoi ''0'' = 0
   \<and> main fp ex_env u [''ASTCreate.exe'', ''in.wav'', ''-e'', ''0''] = Some (Returned 1, None)
   \<and> main fp ex_env u [''ASTCreate.exe'', ''loop.wav'', ''-e'', ''0''] = None"
proof -
  have z: "atoi ''0'' = 0"
    by (simp add: atoi_def isspace_c_def isdigit_c_def)
  have x: "wavExtension ''in.wav'' = Some 4" "wavExtension ''loop.wav'' = Some 4"
    by (simp_all add: wavExtension_def)
  have f: "fopen_rb ex_env ''loop.wav'' = Some ex_loop"
    by (simp add: ex_env_def)
  have o: "optLoop fp [''ASTCreate.exe'', ''in.wav'', ''-e'', ''0''] 2 t = (Returned 1, t)" for t
    by (subst optLoop.simps) (simp add: assignValue_e_zero z)
  have "grabInfo fp ex_env u [''ASTCreate.exe'', ''in.wav'', ''-e'', ''0'']
          = Some (Returned 1,
                  (u_this u)\<lparr>isLooped := 65535, loopStart := 0, filename := ''in.ast'',
                              numChannels := 2, sampleRate := 32000, customSampleRate := 32000,
                              wavSize := 12, numSamples := 3\<rparr>, None)"
    unfolding grabInfo_def Let_def
    by (simp add: ex_env_simps x ex_getWAVData o)
  then have good: "main fp ex_env u [''ASTCreate.exe'', ''in.wav'', ''-e'', ''0'']
                     = Some (Returned 1, None)"
    by (simp add: main_def)
  have l: "length ex_loop = 20"
    by (simp add: ex_loop_bytes)
  have s: "take 4 ex_loop = [82, 73, 70, 70]" "take 4 (drop 8 ex_loop) = [87, 65, 86, 69]"
    by (simp_all add: ex_loop_bytes)
  have g: "getWAVData u \<lparr>contents = ex_loop, pos = 0\<rparr> t = None" for t
    by (simp add: getWAVData_def fread_full fseek_set_def l s tag_bytes ex_loop_never)
  have "grabInfo fp ex_env u [''ASTCreate.exe'', ''loop.wav'', ''-e'', ''0''] = None"
    unfolding grabInfo_def Let_def by (simp add: f x g)
  then have hang: "main fp ex_env u [''ASTCreate.exe'', ''loop.wav'', ''-e'', ''0''] = None"
    by (simp add: main_def)
  show ?thesis
    using z good hang by simp
qed

text \<open>The same with memory that holds zeros and exact arithmetic.\<close>

theorem end_sample_zero_hangs_witness:
  "main ex_fpu ex_env ex_indet [''ASTCreate.exe'', ''in.wav'', ''-e'', ''0'']
     = Some (Returned 1, None)
   \<and> main ex_fpu ex_env ex_indet [''ASTCreate.exe'', ''loop.wav'', ''-e'', ''0''] = None"
  using end_sample_zero_hangs[where fp = ex_fpu and u = ex_indet] by simp

text \<open>
  The clamp of \<open>-e\<close>: a request above the number of frames of the source leaves the
  count as it is.
\<close>

lemma atoi_range: "- (2 ^ 31) \<le> atoi a \<and> atoi a \<le> 2 ^ 31 - 1"
  by (simp add: atoi_def Let_def)

lemma end_sample_clamped:
  assumes "int (unat (numSamples s)) < atoi a"
  shows "assignValue fp ''-e'' (Some a) s
           = (Returned 0, s\<lparr>wavSize := numSamples s * 2 * ucast (numChannels s)\<rparr>)"
proof -
  define v where "v = atoi a"
  have "0 \<le> int (unat (numSamples s))"
    by (rule of_nat_0_le_iff)
  then have v: "0 < v" "v < 2 ^ 31"
    using assms atoi_range[of a] unfolding v_def by linarith+
  have u64: "uint (word_of_int v :: u64) = v"
    using v by (simp add: uint_word_of_int take_bit_int_eq_self)
  have nz: "(word_of_int v :: u64) \<noteq> 0"
    using u64 v by (metis less_irrefl uint_0_eq)
  have "uint (ucast (word_of_int v :: u64) :: u32) = v"
    using v u64 by (simp add: unsigned_ucast_eq take_bit_int_eq_self)
  moreover have "uint (numSamples s) < v"
    using assms by (simp add: v_def)
  ultimately have "numSamples s < ucast (word_of_int v :: u64)"
    by (simp add: word_less_def)
  then show ?thesis
    using nz by (simp add: assignValue_def setEnd_def Let_def v_def)
qed

text \<open>
  C8. For \<open>-f\<close> the count of samples asked for is a 64-bit number, and line 258
  compares its low 32 bits with the number of frames of the source. On a file of 1000
  frames at 2147484 Hz, \<open>-f 2000000000\<close> asks for \<open>2000 * 2147484 = 4294968000\<close>
  samples, which is \<open>2 ^ 32 + 704\<close> (the quotient, the product and the sum with 0.5
  are exact in binary floating point): the count to encode becomes 704.
\<close>

theorem end_time_clamp_truncates:
  "toU64 ex_fpu (word_of_int (atol ''2000000000'')) (sampleRate ex_fast) = 4294968000
   \<and> numSamples ex_fast = 1000
   \<and> assignValue ex_fpu ''-f'' (Some ''2000000000'') ex_fast
       = (Returned 0, ex_fast\<lparr>numSamples := 704, wavSize := 1408\<rparr>)"
proof -
  have a: "atol ''2000000000'' = 2000000000"
    by (simp add: atol_def atoi_def isspace_c_def isdigit_c_def)
  have t: "toU64 ex_fpu 2000000000 2147484 = 4294968000"
    by (simp add: ex_fpu_def)
  have c: "(ucast (4294968000 :: u64) :: u32) = 704"
    by simp
  show ?thesis
    by (simp add: assignValue_def a t c setEnd_def ex_fast_def Let_def)
qed

text \<open>The count after the option is below the 1000 frames of the source.\<close>

theorem end_time_clamp_truncates_witness:
  "fst (assignValue ex_fpu ''-f'' (Some ''2000000000'') ex_fast) = Returned 0
   \<and> numSamples (snd (assignValue ex_fpu ''-f'' (Some ''2000000000'') ex_fast)) = 704
   \<and> numSamples (snd (assignValue ex_fpu ''-f'' (Some ''2000000000'') ex_fast))
       < numSamples ex_fast"
  using end_time_clamp_truncates by (simp add: ex_fast_def)


section \<open>The loops of printAudio\<close>

lemma fwrite16_zero: "fwrite16 0 = [0, 0]"
  by (simp add: fwrite16_def le16_def)

lemma fwrite32_zero_six: "length (concat (replicate 6 (fwrite32 0))) = 24"
  by (simp add: eval_nat_numeral)

text \<open>
  The channel loop, started inside the first frame, visits one sample of every frame.
\<close>

lemma chanLoop_frames:
  assumes "y < offset"
  shows "j \<le> k \<Longrightarrow>
         chanLoop block (y + j * offset) (k * offset) offset
           = concat (map (\<lambda>i. fwrite16 (block ! (y + i * offset))) [j..<k])"
proof (induction "k - j" arbitrary: j)
  case 0
  then have "j = k" by simp
  moreover have "\<not> y + k * offset < k * offset" by simp
  ultimately show ?case
    by (subst chanLoop.simps) simp
next
  case (Suc d)
  then have jk: "j < k" and d: "d = k - Suc j" by simp_all
  have "Suc j * offset \<le> k * offset"
    using jk by (intro mult_le_mono1) simp
  then have lt: "y + j * offset < k * offset"
    using assms by simp
  have off: "0 < offset"
    using assms by simp
  have step: "y + j * offset + offset = y + Suc j * offset"
    by simp
  have "chanLoop block (y + j * offset) (k * offset) offset
          = fwrite16 (block ! (y + j * offset))
            @ chanLoop block (y + Suc j * offset) (k * offset) offset"
    using lt off by (subst chanLoop.simps) (simp only: step if_True simp_thms)
  also have "chanLoop block (y + Suc j * offset) (k * offset) offset
          = concat (map (\<lambda>i. fwrite16 (block ! (y + i * offset))) [Suc j..<k])"
    using Suc.hyps(1)[OF d] jk by simp
  finally show ?case
    using jk by (simp add: upt_conv_Cons)
qed

lemma chanLoop_planar:
  assumes "y < offset"
  shows "chanLoop block y (k * offset) offset
           = concat (map (\<lambda>i. fwrite16 (block ! (y + i * offset))) [0..<k])"
  using chanLoop_frames[OF assms, of 0 k block] by simp

lemma length_concat_const:
  assumes "\<And>x. x \<in> set xs \<Longrightarrow> length (f x) = c"
  shows "length (concat (map f xs)) = length xs * c"
  using assms by (induction xs) simp_all

lemma chanLoop_length:
  assumes "y < offset"
  shows "length (chanLoop block y (k * offset) offset) = 2 * k"
  by (simp add: chanLoop_planar[OF assms] length_concat_const[where c = 2])

lemma padLoop_even:
  "j \<le> m \<Longrightarrow> padLoop (2 * j) (2 * m) = replicate (2 * (m - j)) 0"
proof (induction "m - j" arbitrary: j)
  case 0
  then show ?case
    by (subst padLoop.simps) simp
next
  case (Suc d)
  then have jm: "j < m" and d: "d = m - Suc j" by simp_all
  have "padLoop (2 * j) (2 * m) = fwrite16 0 @ padLoop (2 * Suc j) (2 * m)"
    using jm by (subst padLoop.simps) simp
  also have "padLoop (2 * Suc j) (2 * m) = replicate (2 * (m - Suc j)) 0"
    using Suc.hyps(1)[OF d] jm by simp
  finally show ?case
    using jm by (simp add: fwrite16_zero Suc_diff_Suc replicate_Suc[symmetric] del: replicate_Suc)
qed

lemma padLoop_zeros:
  assumes "even p"
  shows "padLoop 0 p = replicate p 0"
proof -
  obtain m where "p = 2 * m"
    using assms by (auto elim: evenE)
  then show ?thesis
    using padLoop_even[of 0 m] by simp
qed

lemma length_storeBytes [simp]: "length (storeBytes bs ws) = length ws"
  by (induction bs ws rule: storeBytes.induct) simp_all


lemma writeChannels_length:
  assumes "even pad"
  shows "length (writeChannels block (k * nc) nc final pad)
           = nc * (2 * k + (if final then pad else 0))"
proof -
  have "length (chanLoop block y (k * nc) nc @ (if final then padLoop 0 pad else []))
          = 2 * k + (if final then pad else 0)" if "y \<in> set [0..<nc]" for y
    using that chanLoop_length[of y nc block k] padLoop_zeros[OF assms] by simp
  then have "length (concat (map (\<lambda>y. chanLoop block y (k * nc) nc
                                        @ (if final then padLoop 0 pad else [])) [0..<nc]))
               = length [0..<nc] * (2 * k + (if final then pad else 0))"
    by (rule length_concat_const)
  then show ?thesis
    unfolding writeChannels_def by simp
qed

lemma unat_u16_bound: "unat (c :: u16) < 65536"
  using unsigned_less[of c, where ?'a = nat] by simp

lemma unat_times_chan:
  assumes "unat (a :: u32) \<le> 10080"
  shows "unat (a * ucast (c :: u16)) = unat a * unat c"
proof -
  have "unat a * unat c \<le> 10080 * 65536"
    using assms unat_u16_bound[of c] by (intro mult_le_mono) simp_all
  then have "unat a * unat (ucast c :: u32) < 2 ^ LENGTH(32)"
    by (simp add: unat_ucast_u16)
  then have "unat (a * ucast c) = unat a * unat (ucast c :: u32)"
    using unat_mult_lem[of a "ucast c"] by blast
  then show ?thesis
    by (simp add: unat_ucast_u16)
qed

lemma unat_blockSize_chan: "unat (blockSize * ucast (c :: u16)) = 10080 * unat c"
  using unat_times_chan[of blockSize c] by (simp add: blockSize_def)

lemma unat_minus_one_u32: "1 \<le> unat (w :: u32) \<Longrightarrow> unat (w - 1) = unat w - 1"
  by (simp add: unat_minus_one unat_eq_0[symmetric])

text \<open>One turn of the loop over the blocks: a full block, and the last block.\<close>

lemma blockLoop_inner:
  assumes "Suc x < unat (numBlocks s)"
  shows "blockLoop s x len plen block src =
           bytes_of ''BLCK'' @ fwrite32 plen @ concat (replicate 6 (fwrite32 0))
           @ writeChannels (swapBlock (fst (freadBlock block (unat len) src)) (unat len div 2))
               (unat len div 2) (unat (numChannels s)) False (unat (padding s))
           @ blockLoop s (Suc x) len plen
               (swapBlock (fst (freadBlock block (unat len) src)) (unat len div 2))
               (snd (freadBlock block (unat len) src))"
proof -
  have "unat (numBlocks s - 1) = unat (numBlocks s) - 1"
    using assms by (intro unat_minus_one_u32) simp
  then have nf: "x \<noteq> unat (numBlocks s - 1)" and lt: "x < unat (numBlocks s)"
    using assms by simp_all
  show ?thesis
    using nf lt by (subst blockLoop.simps) (simp add: Let_def split_beta)
qed

lemma blockLoop_last:
  assumes "Suc x = unat (numBlocks s)"
  shows "blockLoop s x len plen block src =
           bytes_of ''BLCK'' @ fwrite32 (byteswap_ulong (excBlkSz s + padding s))
           @ concat (replicate 6 (fwrite32 0))
           @ writeChannels
               (swapBlock (fst (freadBlock (replicate (length block) 0)
                                  (unat (excBlkSz s * ucast (numChannels s))) src))
                  (unat (excBlkSz s * ucast (numChannels s)) div 2))
               (unat (excBlkSz s * ucast (numChannels s)) div 2) (unat (numChannels s)) True
               (unat (padding s))"
proof -
  have "unat (numBlocks s - 1) = unat (numBlocks s) - 1"
    using assms by (intro unat_minus_one_u32) simp
  then have f: "x = unat (numBlocks s - 1)" and lt: "x < unat (numBlocks s)"
    using assms by simp_all
  have stop: "blockLoop s (Suc x) l p b f = []" for l p b f
    using assms by (subst blockLoop.simps) simp
  show ?thesis
    using lt by (subst blockLoop.simps) (simp add: Let_def split_beta f[symmetric] stop)
qed

section \<open>The size of the body\<close>

lemma blockLoop_length:
  assumes "even (unat (excBlkSz s))" and "unat (excBlkSz s) \<le> 10080"
    and "even (unat (padding s))"
  shows "x < unat (numBlocks s) \<Longrightarrow>
         length (blockLoop s x (blockSize * ucast (numChannels s)) plen block src)
           = (unat (numBlocks s) - x) * 32
             + (unat (numBlocks s) - 1 - x) * (10080 * unat (numChannels s))
             + unat (excBlkSz s) * unat (numChannels s)
             + unat (padding s) * unat (numChannels s)"
proof (induction "unat (numBlocks s) - x" arbitrary: x plen block src)
  case 0
  then show ?case by simp
next
  case (Suc d)
  let ?nc = "unat (numChannels s)"
  show ?case
  proof (cases "Suc x = unat (numBlocks s)")
    case True
    have half: "unat (excBlkSz s * ucast (numChannels s)) div 2 = (unat (excBlkSz s) div 2) * ?nc"
      using assms(1) by (auto simp add: unat_times_chan[OF assms(2)] elim!: evenE)
    have "length (blockLoop s x (blockSize * ucast (numChannels s)) plen block src)
            = 32 + ?nc * (2 * (unat (excBlkSz s) div 2) + unat (padding s))"
      unfolding blockLoop_last[OF True] half
      by (simp add: writeChannels_length[OF assms(3)] fwrite32_zero_six)
    also have "2 * (unat (excBlkSz s) div 2) = unat (excBlkSz s)"
      using assms(1) by simp
    finally show ?thesis
      using True[symmetric] by (simp add: algebra_simps)
  next
    case False
    then have lt: "Suc x < unat (numBlocks s)"
      using Suc.prems by simp
    have d: "d = unat (numBlocks s) - Suc x"
      using Suc.hyps(2) by simp
    have half: "unat (blockSize * ucast (numChannels s)) div 2 = 5040 * ?nc"
      by (simp add: unat_blockSize_chan)
    have even0: "even (0 :: nat)"
      by simp
    have "length (blockLoop s x (blockSize * ucast (numChannels s)) plen block src)
            = 32 + ?nc * (2 * 5040)
              + ((unat (numBlocks s) - Suc x) * 32
                 + (unat (numBlocks s) - 1 - Suc x) * (10080 * ?nc)
                 + unat (excBlkSz s) * ?nc + unat (padding s) * ?nc)"
      unfolding blockLoop_inner[OF lt] half
      using Suc.hyps(1)[OF d lt] writeChannels_length[OF assms(3), of _ 5040 ?nc False]
      by (simp add: fwrite32_zero_six)
    also have "\<dots> = (unat (numBlocks s) - x) * 32
                 + (unat (numBlocks s) - 1 - x) * (10080 * ?nc)
                 + unat (excBlkSz s) * ?nc + unat (padding s) * ?nc"
    proof -
      obtain m where m: "unat (numBlocks s) = Suc (Suc x) + m"
        using lt by (metis Suc_leI le_Suc_ex)
      show ?thesis
        by (simp add: m algebra_simps)
    qed
    finally show ?thesis .
  qed
qed


text \<open>
  What \<open>writeAST\<close> has computed when it returns 0 on an object that satisfies the
  invariant: there is a block, the last block is even and at most 10080 bytes, and the
  blocks hold the samples exactly.
\<close>

lemma writeAST_layout:
  assumes "sourceInv s" and "writeAST e src s = (0, s', out)"
  shows "1 \<le> unat (numBlocks s')" and "even (unat (excBlkSz s'))"
    and "unat (excBlkSz s') \<le> 10080" and "even (unat (padding s'))"
    and "(unat (numBlocks s') - 1) * 10080 + unat (excBlkSz s') = 2 * unat (numSamples s')"
proof -
  define n where "n = unat (numSamples s) * 2"
  have s': "s' = fst (snd (writeAST e src s))" and ok: "fst (writeAST e src s) = 0"
    using assms(2) by simp_all
  have dbl: "unat (numSamples s * 2) = n"
    using sourceInv_bound[OF assms(1)] by (simp add: unat_word_ariths n_def)
  have nb: "unat (numBlocks s') = (if n mod 10080 = 0 then n div 10080 else n div 10080 + 1)"
    using ceil_div_nat[of 10080 n] by (simp add: s' writeAST_fields calcBlocks_numBlocks dbl)
  have nz: "unat (numBlocks s') \<noteq> 0"
    using writeAST_ok(1)[OF ok] by (simp add: s' writeAST_fields unat_eq_0)
  then show "1 \<le> unat (numBlocks s')"
    by simp
  have "unat (excBlkSz s') =
          (if unat (excBlkSz (calcBlocks s)) = 0 then 10080 else unat (excBlkSz (calcBlocks s)))"
    using writeAST_ok(3)[OF ok] by (simp add: s' blockSize_def unat_eq_0)
  then have exc: "unat (excBlkSz s') = (if n mod 10080 = 0 then 10080 else n mod 10080)"
    by (simp add: calcBlocks_excBlkSz dbl)
  have "even n"
    by (simp add: n_def)
  then have "even (n mod 10080)"
    by (simp add: dvd_mod_iff)
  then show "even (unat (excBlkSz s'))"
    by (simp add: exc)
  have "n mod 10080 < 10080"
    by simp
  then show "unat (excBlkSz s') \<le> 10080"
    by (simp add: exc)
  show "even (unat (padding s'))"
    using writeAST_padding[OF assms(2)] by simp
  have "(unat (numBlocks s') - 1) * 10080 + unat (excBlkSz s') = n"
  proof (cases "n mod 10080 = 0")
    case True
    then have "unat (numBlocks s') * 10080 = n"
      using div_mult_mod_eq[of n 10080] by (simp add: nb)
    moreover have "(unat (numBlocks s') - 1) * 10080 + 10080 = unat (numBlocks s') * 10080"
      using nz by (simp add: algebra_simps)
    ultimately show ?thesis
      using True by (simp add: exc)
  next
    case False
    then show ?thesis
      using div_mult_mod_eq[of n 10080] by (simp add: nb exc)
  qed
  then show "(unat (numBlocks s') - 1) * 10080 + unat (excBlkSz s') = 2 * unat (numSamples s')"
    by (simp add: n_def s' writeAST_fields)
qed

lemma printAudio_length:
  assumes "1 \<le> unat (numBlocks s)" and "even (unat (excBlkSz s))"
    and "unat (excBlkSz s) \<le> 10080" and "even (unat (padding s))"
  shows "length (printAudio h src s)
           = unat (numBlocks s) * 32
             + ((unat (numBlocks s) - 1) * 10080 + unat (excBlkSz s)) * unat (numChannels s)
             + unat (padding s) * unat (numChannels s)"
proof -
  have "0 < unat (numBlocks s)"
    using assms(1) by simp
  moreover have "((unat (numBlocks s) - 1) * 10080 + unat (excBlkSz s)) * unat (numChannels s)
          = (unat (numBlocks s) - 1) * (10080 * unat (numChannels s))
            + unat (excBlkSz s) * unat (numChannels s)"
    by (simp add: add_mult_distrib mult.assoc)
  ultimately show ?thesis
    unfolding printAudio_def
    by (simp add: blockLoop_length[OF assms(2,3,4)])
qed

lemma unat_astSize:
  "unat (a + b * 32 + p * ucast (c :: u16) :: u32)
     = (unat a + unat b * 32 + unat p * unat c) mod 2 ^ 32"
  by (simp add: unat_word_ariths unat_ucast_u16 mod_simps)


text \<open>The field at offset 0x04 of a written file.\<close>

lemma header_astSize: "readBE32 (printHeader s @ body) 4 = astSize s"
proof -
  have "take 4 (drop 4 (printHeader s @ body)) = fwrite32 (byteswap_ulong (astSize s))"
    unfolding printHeader_shape by simp
  then show ?thesis
    by (simp add: readBE32_def fwrite32_swap rd32_le32)
qed

section \<open>When the size of the data is the size of the frames\<close>

text \<open>
  \<open>getWAVData\<close> divides the size of the data chunk by the size of a frame (line 364),
  so the size is the size of the frames counted exactly when it is a multiple of
  \<open>2 * numChannels\<close>.
\<close>

lemma getWAVData_samples:
  assumes "getWAVData u f s = Some (Returned 0, s', f')"
  shows "unat (numSamples s') = unat (wavSize s') div (2 * unat (numChannels s'))"
proof -
  have "unat (ws div (ucast nc * 2 :: u32)) = unat ws div (2 * unat nc)" for ws :: u32 and nc :: u16
    by (simp add: unat_div unat_chan2 mult.commute)
  then show ?thesis
    using assms
    by (auto simp add: getWAVData_def Let_def
        split: prod.splits if_splits Option.bind_splits)
qed

lemma div_exact_iff:
  fixes d m :: nat
  shows "(d = d div m * m) = (d mod m = 0)"
  using div_mult_mod_eq[of d m] by arith

lemma getWAVData_exact:
  assumes "getWAVData u f s = Some (Returned 0, s', f')"
  shows "(unat (wavSize s') = unat (numSamples s') * 2 * unat (numChannels s'))
           = (unat (wavSize s') mod (2 * unat (numChannels s')) = 0)"
  unfolding getWAVData_samples[OF assms] mult.assoc by (rule div_exact_iff)

text \<open>
  Every option but \<open>-e\<close> and \<open>-f\<close> leaves the three fields alone; \<open>-e\<close> and
  \<open>-f\<close>, when they return 0, have gone through lines 239 to 243, which make the size
  the size of the frames; and once that holds, every option keeps it.
\<close>

lemma assignValue_keeps:
  assumes "\<not> (1 < length c1 \<and> (c1 ! 1 = CHR ''e'' \<or> c1 ! 1 = CHR ''f''))"
  shows "wavSize (snd (assignValue fp c1 c2 s)) = wavSize s"
    and "numSamples (snd (assignValue fp c1 c2 s)) = numSamples s"
    and "numChannels (snd (assignValue fp c1 c2 s)) = numChannels s"
  using assms by (auto simp add: assignValue_def Let_def split: option.splits)

lemma assignValue_e:
  assumes "1 < length c1" and "c1 ! 1 = CHR ''e''"
  shows "assignValue fp c1 c2 s =
     (case c2 of None \<Rightarrow> (Crashed, s)
      | Some a \<Rightarrow> if (word_of_int (atoi a) :: u64) = 0 then (Returned 1, s)
                  else (Returned 0, setEnd (word_of_int (atoi a)) s))"
  using assms by (simp add: assignValue_def Let_def split: option.splits)

lemma assignValue_f:
  assumes "1 < length c1" and "c1 ! 1 = CHR ''f''"
  shows "assignValue fp c1 c2 s =
     (case c2 of None \<Rightarrow> (Crashed, s)
      | Some a \<Rightarrow> if (word_of_int (atol a) :: u64) = 0 then (Returned 1, s)
                  else if toU64 fp (word_of_int (atol a)) (sampleRate s) = 0 then (Returned 1, s)
                  else (Returned 0, setEnd (toU64 fp (word_of_int (atol a)) (sampleRate s)) s))"
  using assms by (simp add: assignValue_def Let_def split: option.splits)

lemma assignValue_end:
  assumes "1 < length c1" and "c1 ! 1 = CHR ''e'' \<or> c1 ! 1 = CHR ''f''"
  shows "snd (assignValue fp c1 c2 s) = s
         \<or> fst (assignValue fp c1 c2 s) = Returned 0
           \<and> (\<exists>x. snd (assignValue fp c1 c2 s) = setEnd x s)"
proof -
  from assms(2) show ?thesis
  proof
    assume e: "c1 ! 1 = CHR ''e''"
    show ?thesis
      unfolding assignValue_e[OF assms(1) e] by (cases c2) auto
  next
    assume f: "c1 ! 1 = CHR ''f''"
    show ?thesis
      unfolding assignValue_f[OF assms(1) f] by (cases c2) auto
  qed
qed

lemma assignValue_end_ok:
  assumes "1 < length c1" and "c1 ! 1 = CHR ''e'' \<or> c1 ! 1 = CHR ''f''"
    and "fst (assignValue fp c1 c2 s) = Returned 0"
  shows "\<exists>x. snd (assignValue fp c1 c2 s) = setEnd x s"
proof -
  from assms(2) show ?thesis
  proof
    assume e: "c1 ! 1 = CHR ''e''"
    show ?thesis
      using assms(3) unfolding assignValue_e[OF assms(1) e]
      by (cases c2) (auto split: if_splits)
  next
    assume f: "c1 ! 1 = CHR ''f''"
    show ?thesis
      using assms(3) unfolding assignValue_f[OF assms(1) f]
      by (cases c2) (auto split: if_splits)
  qed
qed

lemma setEnd_exact':
  assumes "sourceInv s"
  shows "unat (wavSize (setEnd x s))
           = unat (numSamples (setEnd x s)) * 2 * unat (numChannels (setEnd x s))"
  using setEnd_exact[OF assms, of x] by (simp add: mult.assoc)

lemma assignValue_exact:
  assumes "sourceInv t \<and> unat (wavSize t) = unat (numSamples t) * 2 * unat (numChannels t)"
  shows "sourceInv (snd (assignValue fp c1 c2 t))
         \<and> unat (wavSize (snd (assignValue fp c1 c2 t)))
             = unat (numSamples (snd (assignValue fp c1 c2 t))) * 2
               * unat (numChannels (snd (assignValue fp c1 c2 t)))"
proof -
  have inv: "sourceInv (snd (assignValue fp c1 c2 t))"
    using assignValue_inv[OF surjective_pairing conjunct1[OF assms]] .
  have "unat (wavSize (snd (assignValue fp c1 c2 t)))
               = unat (numSamples (snd (assignValue fp c1 c2 t))) * 2
                 * unat (numChannels (snd (assignValue fp c1 c2 t)))"
  proof (cases "1 < length c1 \<and> (c1 ! 1 = CHR ''e'' \<or> c1 ! 1 = CHR ''f'')")
    case True
    then show ?thesis
      using assignValue_end[of c1 fp c2 t] assms setEnd_exact'[of t] by auto
  next
    case False
    show ?thesis
      unfolding assignValue_keeps[OF False] using assms by simp
  qed
  then show ?thesis
    using inv by simp
qed

declare endGiven.simps [simp del]

lemma endGiven_stop:
  assumes "\<not> (count < length argv \<and> argv ! count \<noteq> [] \<and> hd (argv ! count) = CHR ''-''
             \<and> length (argv ! count) = 2)"
  shows "\<not> endGiven argv count"
  using endGiven.simps[of argv count] assms by auto

lemma endGiven_step:
  assumes "count < length argv \<and> argv ! count \<noteq> [] \<and> hd (argv ! count) = CHR ''-''
             \<and> length (argv ! count) = 2"
  shows "endGiven argv count =
           (argv ! count ! 1 = CHR ''e'' \<or> argv ! count ! 1 = CHR ''f''
            \<or> endGiven argv ((if argv ! count ! 1 \<noteq> CHR ''n'' \<and> argv ! count ! 1 \<noteq> CHR ''h''
                               then count + 1 else count) + 1))"
proof -
  have step: "(if argv ! count ! 1 \<noteq> CHR ''n'' \<and> argv ! count ! 1 \<noteq> CHR ''h''
               then count + 2 else count + 1)
              = (if argv ! count ! 1 \<noteq> CHR ''n'' \<and> argv ! count ! 1 \<noteq> CHR ''h''
                 then count + 1 else count) + 1"
    by simp
  show ?thesis
    by (subst endGiven.simps, subst if_P[OF assms], subst step) (rule refl)
qed

lemma optLoop_exact:
  "sourceInv s \<Longrightarrow> optLoop fp argv count s = (Returned 0, s')
   \<Longrightarrow> (unat (wavSize s') = unat (numSamples s') * 2 * unat (numChannels s'))
       = (unat (wavSize s) = unat (numSamples s) * 2 * unat (numChannels s)
          \<or> endGiven argv count)"
proof (induction "length argv - count" arbitrary: count s rule: less_induct)
  case less
  show ?case
  proof (cases "count < length argv \<and> argv ! count \<noteq> [] \<and> hd (argv ! count) = CHR ''-''
                 \<and> length (argv ! count) = 2")
    case False
    then have "s' = s"
      using less.prems(2) by (simp add: optLoop_stop split: if_splits)
    moreover have "\<not> endGiven argv count"
      using False by (rule endGiven_stop)
    ultimately show ?thesis
      by simp
  next
    case True
    define a where "a = argv ! count"
    define valued where "valued = (a ! 1 \<noteq> CHR ''n'' \<and> a ! 1 \<noteq> CHR ''h'')"
    define c2 where "c2 = (if length argv - 1 = count then None else Some (argv ! (count + 1)))"
    define r where "r = (if length argv - 1 = count
                         then (if valued then (Returned 1, s) else assignValue fp a None s)
                         else assignValue fp a (Some (argv ! (count + 1))) s)"
    define count1 where "count1 = (if valued then count + 1 else count)"
    have unfold: "optLoop fp argv count s =
        (if fst r = Crashed \<or> length argv \<le> count1 then (Crashed, snd r)
         else if fst r = Returned 1 then (Returned 1, snd r)
         else optLoop fp argv (count1 + 1) (snd r))"
      using True
      by (simp add: optLoop_step Let_def a_def valued_def r_def count1_def)
    have nc: "fst r \<noteq> Crashed" "fst r \<noteq> Returned 1"
      and rest: "optLoop fp argv (count1 + 1) (snd r) = (Returned 0, s')"
      using less.prems(2) unfolding unfold by (auto split: if_splits)
    have rv: "r = assignValue fp a c2 s"
      using nc(2) by (auto simp add: r_def c2_def split: if_splits)
    have r0: "fst (assignValue fp a c2 s) = Returned 0"
      using nc assignValue_outcome[of fp a c2 s] by (auto simp add: rv)
    have a1: "1 < length a"
      using True by (simp add: a_def)
    have inv1: "sourceInv (snd r)"
      unfolding rv using assignValue_inv[OF surjective_pairing less.prems(1)] .
    have dec: "length argv - (count1 + 1) < length argv - count"
      using True by (auto simp add: count1_def)
    have eg: "endGiven argv count
                = (a ! 1 = CHR ''e'' \<or> a ! 1 = CHR ''f'' \<or> endGiven argv (count1 + 1))"
      unfolding a_def count1_def valued_def using True by (rule endGiven_step)
    show ?thesis
    proof (cases "a ! 1 = CHR ''e'' \<or> a ! 1 = CHR ''f''")
      case True
      obtain x where x: "snd r = setEnd x s"
        using assignValue_end_ok[OF a1 True r0] unfolding rv by blast
      have "sourceInv (snd r)
            \<and> unat (wavSize (snd r)) = unat (numSamples (snd r)) * 2 * unat (numChannels (snd r))"
        using inv1 setEnd_exact'[OF less.prems(1), of x] by (simp add: x)
      then have "sourceInv (snd (optLoop fp argv (count1 + 1) (snd r)))
            \<and> unat (wavSize (snd (optLoop fp argv (count1 + 1) (snd r))))
                = unat (numSamples (snd (optLoop fp argv (count1 + 1) (snd r)))) * 2
                  * unat (numChannels (snd (optLoop fp argv (count1 + 1) (snd r))))"
        by (rule optLoop_preserves[rotated]) (rule assignValue_exact)
      then have "unat (wavSize s') = unat (numSamples s') * 2 * unat (numChannels s')"
        unfolding rest snd_conv by (rule conjunct2)
      then show ?thesis
        using True eg by blast
    next
      case False
      have keep: "wavSize (snd r) = wavSize s" "numSamples (snd r) = numSamples s"
        "numChannels (snd r) = numChannels s"
        unfolding rv using False by (simp_all add: assignValue_keeps)
      have "(unat (wavSize s') = unat (numSamples s') * 2 * unat (numChannels s'))
              = (unat (wavSize (snd r)) = unat (numSamples (snd r)) * 2 * unat (numChannels (snd r))
                 \<or> endGiven argv (count1 + 1))"
        using dec inv1 rest by (rule less.hyps)
      then show ?thesis
        unfolding keep using False eg by blast
    qed
  qed
qed

text \<open>
  C10. \<open>grabInfo\<close> calls \<open>getWAVData\<close>, the loop over the arguments and
  \<open>writeAST\<close> in a row (lines 146, 152 to 180 and 184; the last case of
  \<open>grabInfo_cases\<close>). When all three succeed and a
  file is written, the bytes after the 64 of the header are
  \<open>numBlocks * 32 + numSamples * 2 * numChannels + padding * numChannels\<close>, and the
  big-endian word at offset 0x04 of the header is the sum
  \<open>wavSize + numBlocks * 32 + padding * numChannels\<close> modulo \<open>2 ^ 32\<close>.
  \<open>wavSize\<close> differs from \<open>numSamples * 2 * numChannels\<close> exactly when the size of
  the data chunk read by \<open>getWAVData\<close> is not a multiple of \<open>2 * numChannels\<close> and
  the arguments hold no \<open>-e\<close> and no \<open>-f\<close>. As long as the sum stays below
  \<open>2 ^ 32\<close>, the word of the header equals the number of bytes written exactly when
  \<open>wavSize = numSamples * 2 * numChannels\<close>, and it is larger than that number exactly
  when the size of the data chunk is not a multiple of \<open>2 * numChannels\<close> and there is
  no \<open>-e\<close> and no \<open>-f\<close>.
\<close>

theorem body_size_and_header_field:
  assumes "getWAVData u f s0 = Some (Returned 0, s1, src)"
    and "optLoop fp argv 2 s1 = (Returned 0, s2)"
    and "writeAST e src s2 = (rc, s', Some (name, bytes))"
  shows "length bytes = 64 + (unat (numBlocks s') * 32
                               + unat (numSamples s') * 2 * unat (numChannels s')
                               + unat (padding s') * unat (numChannels s'))
         \<and> unat (readBE32 bytes 4)
             = (unat (wavSize s') + unat (numBlocks s') * 32
                + unat (padding s') * unat (numChannels s')) mod 2 ^ 32
         \<and> ((unat (wavSize s') \<noteq> unat (numSamples s') * 2 * unat (numChannels s'))
              = (unat (wavSize s1) mod (2 * unat (numChannels s1)) \<noteq> 0 \<and> \<not> endGiven argv 2))
         \<and> (unat (wavSize s') + unat (numBlocks s') * 32
                + unat (padding s') * unat (numChannels s') < 2 ^ 32
              \<longrightarrow> ((unat (readBE32 bytes 4) = length bytes - 64)
                     = (unat (wavSize s') = unat (numSamples s') * 2 * unat (numChannels s')))
                  \<and> ((length bytes - 64 < unat (readBE32 bytes 4))
                     = (unat (wavSize s1) mod (2 * unat (numChannels s1)) \<noteq> 0
                        \<and> \<not> endGiven argv 2)))"
proof -
  have inv1: "sourceInv s1"
    using getWAVData_inv[OF assms(1)] .
  have inv: "sourceInv s2"
    using optLoop_inv[OF assms(2) inv1] .
  have ok: "fst (writeAST e src s2) = 0"
    using assms(3) writeAST_fail(1)[of e src s2] by (cases "fst (writeAST e src s2) = 0") simp_all
  then have w: "writeAST e src s2 = (0, s', Some (name, bytes))"
    using assms(3) by simp
  have s': "s' = fst (snd (writeAST e src s2))"
    using w by simp
  note lay = writeAST_layout[OF inv w]
  have b: "bytes = printHeader s' @ printAudio (heap e) src s'"
    using writeAST_ok(5)[OF ok] w by simp
  have len: "length bytes = 64 + (unat (numBlocks s') * 32
                               + unat (numSamples s') * 2 * unat (numChannels s')
                               + unat (padding s') * unat (numChannels s'))"
  proof -
    have "length (printAudio (heap e) src s')
            = unat (numBlocks s') * 32 + 2 * unat (numSamples s') * unat (numChannels s')
              + unat (padding s') * unat (numChannels s')"
      using printAudio_length[OF lay(1-4), of "heap e" src]
      unfolding lay(5) .
    then show ?thesis
      unfolding b by (simp add: printHeader_length)
  qed
  have inv': "unat (numSamples s') * 2 * unat (numChannels s') \<le> unat (wavSize s')"
    using inv by (simp add: s' writeAST_fields sourceInv_def algebra_simps)
  have ast: "unat (astSize s') = (unat (wavSize s') + unat (numBlocks s') * 32
                + unat (padding s') * unat (numChannels s')) mod 2 ^ 32"
    using unat_astSize[of "wavSize s2" "numBlocks (calcBlocks s2)" "padding (calcBlocks s2)"
        "numChannels s2"]
    by (simp add: s' writeAST_fields calcBlocks_astSize)
  have field: "readBE32 bytes 4 = astSize s'"
    unfolding b by (rule header_astSize)
  have same: "wavSize s' = wavSize s2" "numSamples s' = numSamples s2"
    "numChannels s' = numChannels s2"
    by (simp_all add: s' writeAST_fields)
  have "(unat (wavSize s2) = unat (numSamples s2) * 2 * unat (numChannels s2))
          = (unat (wavSize s1) = unat (numSamples s1) * 2 * unat (numChannels s1)
             \<or> endGiven argv 2)"
    using inv1 assms(2) by (rule optLoop_exact)
  then have ex: "(unat (wavSize s') \<noteq> unat (numSamples s') * 2 * unat (numChannels s'))
          = (unat (wavSize s1) mod (2 * unat (numChannels s1)) \<noteq> 0 \<and> \<not> endGiven argv 2)"
    unfolding same getWAVData_exact[OF assms(1)] by simp
  have small: "(unat (readBE32 bytes 4) = length bytes - 64)
                     = (unat (wavSize s') = unat (numSamples s') * 2 * unat (numChannels s'))"
      "(length bytes - 64 < unat (readBE32 bytes 4))
         = (unat (wavSize s') \<noteq> unat (numSamples s') * 2 * unat (numChannels s'))"
    if "unat (wavSize s') + unat (numBlocks s') * 32
          + unat (padding s') * unat (numChannels s') < 2 ^ 32"
    using that len inv' by (auto simp add: field ast)
  show ?thesis
    using len ex small by (simp add: field ast)
qed

text \<open>The header of \<open>ex_odd\<close>, read by \<open>getWAVData\<close>, and the file written.\<close>

lemma ex_odd_bytes:
  "ex_odd = [82, 73, 70, 70, 50, 0, 0, 0, 87, 65, 86, 69, 102, 109, 116, 32, 16, 0, 0, 0,
             1, 0, 2, 0, 0, 125, 0, 0, 0, 244, 1, 0, 4, 0, 16, 0, 100, 97, 116, 97, 14, 0, 0, 0,
             0x01, 0x02, 0x11, 0x12, 0x03, 0x04, 0x13, 0x14, 0x05, 0x06, 0x15, 0x16, 0x07, 0x08]"
  by (simp add: ex_odd_def bytes_of_def byte_of_char_def le32_def le16_def drop_bit_eq_div)

lemma ex_odd_length: "length ex_odd = 58"
  by (simp add: ex_odd_bytes)

lemma ex_odd_slices:
  "take 4 ex_odd = [82, 73, 70, 70]"
  "take 4 (drop 8 ex_odd) = [87, 65, 86, 69]"
  "take 4 (drop 12 ex_odd) = [102, 109, 116, 32]"
  "take 4 (drop 16 ex_odd) = [16, 0, 0, 0]"
  "take 2 (drop 20 ex_odd) = [1, 0]"
  "take 2 (drop 22 ex_odd) = [2, 0]"
  "take 4 (drop 24 ex_odd) = [0, 125, 0, 0]"
  "take 2 (drop 34 ex_odd) = [16, 0]"
  "take 4 (drop 36 ex_odd) = [100, 97, 116, 97]"
  "take 4 (drop 40 ex_odd) = [14, 0, 0, 0]"
  by (simp_all add: ex_odd_bytes)

lemma ex_odd_getWAVData:
  "getWAVData u \<lparr>contents = ex_odd, pos = 0\<rparr> s =
     Some (Returned 0,
           s\<lparr>numChannels := 2, sampleRate := 32000, customSampleRate := 32000,
             wavSize := 14, numSamples := 3\<rparr>,
           \<lparr>contents = ex_odd, pos = 44\<rparr>)"
proof -
  have r: "rd32 [14, 0, 0, 0] = 14"
    by (simp add: rd32_def)
  have fmt: "findChunk [102, 109, 116, 32] \<lparr>contents = ex_odd, pos = 12\<rparr>
               = Some (True, \<lparr>contents = ex_odd, pos = 16\<rparr>)"
    by (subst findChunk.simps) (simp add: fread_full ex_odd_length ex_odd_slices)
  have data: "findChunk [100, 97, 116, 97] \<lparr>contents = ex_odd, pos = 12\<rparr>
               = Some (True, \<lparr>contents = ex_odd, pos = 40\<rparr>)"
    apply (subst findChunk.simps)
    apply (simp add: fread_full fread32_full ex_odd_length ex_odd_slices rd_values fseek_cur_def)
    apply (subst findChunk.simps)
    apply (simp add: fread_full fread32_full ex_odd_length ex_odd_slices rd_values fseek_cur_def)
    done
  have d: "(14 :: u32) div 4 = 3"
    by simp
  show ?thesis
    by (simp add: getWAVData_def fread_full fread16_full fread32_full fseek_set_def fseek_cur_def
        ex_odd_length ex_odd_slices rd_values r tag_bytes fmt data d)
qed

lemma ex_odd_writeAST:
  "writeAST ex_env2 src (ex_odd_state\<lparr>wavSize := w\<rparr>) =
     (0, ex_odd_final\<lparr>wavSize := w, astSize := 84 + w\<rparr>,
      Some (''odd.ast'',
            printHeader (ex_odd_final\<lparr>wavSize := w, astSize := 84 + w\<rparr>)
            @ printAudio (heap ex_env2) src (ex_odd_final\<lparr>wavSize := w, astSize := 84 + w\<rparr>)))"
  by (simp add: writeAST_def calcBlocks_def fixExtension_def fixLastBlock_def fixLoopStart_def
      dropLoop_def strcmpi_eq_def tolower_c_def blockSize_def ex_odd_state_def ex_odd_final_def
      ex_env2_def Let_def)

text \<open>
  The witness: the data chunk of \<open>ex_odd\<close> holds 14 bytes, three stereo frames and two
  bytes more. Without options the header announces 98 bytes and 96 follow it; with
  \<open>-e 3\<close> the header announces the 96 bytes that follow.
\<close>

theorem body_size_and_header_field_witness:
  "getWAVData ex_indet \<lparr>contents = ex_odd, pos = 0\<rparr>
       ((u_this ex_indet)\<lparr>isLooped := 65535, loopStart := 0, filename := ''odd.ast''\<rparr>)
     = Some (Returned 0, ex_odd_state, \<lparr>contents = ex_odd, pos = 44\<rparr>)
   \<and> unat (wavSize ex_odd_state) mod (2 * unat (numChannels ex_odd_state)) = 2
   \<and> optLoop ex_fpu [''ASTCreate.exe'', ''odd.wav''] 2 ex_odd_state = (Returned 0, ex_odd_state)
   \<and> \<not> endGiven [''ASTCreate.exe'', ''odd.wav''] 2
   \<and> writeAST ex_env2 \<lparr>contents = ex_odd, pos = 44\<rparr> ex_odd_state
       = (0, ex_odd_final,
          Some (''odd.ast'',
                printHeader ex_odd_final
                @ printAudio (heap ex_env2) \<lparr>contents = ex_odd, pos = 44\<rparr> ex_odd_final))
   \<and> length (printHeader ex_odd_final
              @ printAudio (heap ex_env2) \<lparr>contents = ex_odd, pos = 44\<rparr> ex_odd_final)
       = 64 + 96
   \<and> unat (readBE32 (printHeader ex_odd_final
                      @ printAudio (heap ex_env2) \<lparr>contents = ex_odd, pos = 44\<rparr> ex_odd_final)
              4) = 98
   \<and> optLoop ex_fpu [''ASTCreate.exe'', ''odd.wav'', ''-e'', ''3''] 2 ex_odd_state
       = (Returned 0, ex_odd_state\<lparr>wavSize := 12\<rparr>)
   \<and> endGiven [''ASTCreate.exe'', ''odd.wav'', ''-e'', ''3''] 2
   \<and> writeAST ex_env2 \<lparr>contents = ex_odd, pos = 44\<rparr> (ex_odd_state\<lparr>wavSize := 12\<rparr>)
       = (0, ex_odd_final\<lparr>wavSize := 12, astSize := 96\<rparr>,
          Some (''odd.ast'',
                printHeader (ex_odd_final\<lparr>wavSize := 12, astSize := 96\<rparr>)
                @ printAudio (heap ex_env2) \<lparr>contents = ex_odd, pos = 44\<rparr>
                    (ex_odd_final\<lparr>wavSize := 12, astSize := 96\<rparr>)))
   \<and> length (printHeader (ex_odd_final\<lparr>wavSize := 12, astSize := 96\<rparr>)
              @ printAudio (heap ex_env2) \<lparr>contents = ex_odd, pos = 44\<rparr>
                  (ex_odd_final\<lparr>wavSize := 12, astSize := 96\<rparr>))
       = 64 + 96
   \<and> unat (readBE32 (printHeader (ex_odd_final\<lparr>wavSize := 12, astSize := 96\<rparr>)
                      @ printAudio (heap ex_env2) \<lparr>contents = ex_odd, pos = 44\<rparr>
                          (ex_odd_final\<lparr>wavSize := 12, astSize := 96\<rparr>))
              4) = 96"
proof -
  let ?src = "\<lparr>contents = ex_odd, pos = 44\<rparr>"
  let ?f1 = "ex_odd_final"
  let ?f2 = "ex_odd_final\<lparr>wavSize := 12, astSize := 96\<rparr>"
  have st: "((u_this ex_indet)\<lparr>isLooped := 65535, loopStart := 0, filename := ''odd.ast''\<rparr>)
              \<lparr>numChannels := 2, sampleRate := 32000, customSampleRate := 32000,
               wavSize := 14, numSamples := 3\<rparr> = ex_odd_state"
    by (simp add: ex_odd_state_def ex_indet_def)
  have g: "getWAVData ex_indet \<lparr>contents = ex_odd, pos = 0\<rparr>
             ((u_this ex_indet)\<lparr>isLooped := 65535, loopStart := 0, filename := ''odd.ast''\<rparr>)
           = Some (Returned 0, ex_odd_state, ?src)"
    unfolding ex_odd_getWAVData st by (rule refl)
  have m: "unat (wavSize ex_odd_state) mod (2 * unat (numChannels ex_odd_state)) = 2"
    by (simp add: ex_odd_state_def)
  have o1: "optLoop ex_fpu [''ASTCreate.exe'', ''odd.wav''] 2 ex_odd_state
              = (Returned 0, ex_odd_state)"
    by (subst optLoop.simps) simp
  have e1: "\<not> endGiven [''ASTCreate.exe'', ''odd.wav''] 2"
    by (rule endGiven_stop) simp
  have a3: "atoi ''3'' = 3"
    by (simp add: atoi_def isspace_c_def isdigit_c_def)
  have se: "setEnd 3 ex_odd_state = ex_odd_state\<lparr>wavSize := 12\<rparr>"
    by (simp add: setEnd_def ex_odd_state_def Let_def)
  have av: "assignValue ex_fpu ''-e'' (Some ''3'') ex_odd_state
              = (Returned 0, ex_odd_state\<lparr>wavSize := 12\<rparr>)"
    by (subst assignValue_e) (simp_all add: a3 se)
  have stop: "optLoop ex_fpu [''ASTCreate.exe'', ''odd.wav'', ''-e'', ''3''] 4 t = (Returned 0, t)"
    for t
    by (subst optLoop.simps) simp
  have o2: "optLoop ex_fpu [''ASTCreate.exe'', ''odd.wav'', ''-e'', ''3''] 2 ex_odd_state
              = (Returned 0, ex_odd_state\<lparr>wavSize := 12\<rparr>)"
    by (subst optLoop.simps) (simp add: av stop)
  have e2: "endGiven [''ASTCreate.exe'', ''odd.wav'', ''-e'', ''3''] 2"
    by (subst endGiven_step) simp_all
  have w1: "writeAST ex_env2 ?src ex_odd_state
              = (0, ?f1, Some (''odd.ast'', printHeader ?f1 @ printAudio (heap ex_env2) ?src ?f1))"
    using ex_odd_writeAST[of ?src 14] by (simp add: ex_odd_state_def ex_odd_final_def)
  have w2: "writeAST ex_env2 ?src (ex_odd_state\<lparr>wavSize := 12\<rparr>)
              = (0, ?f2, Some (''odd.ast'', printHeader ?f2 @ printAudio (heap ex_env2) ?src ?f2))"
    using ex_odd_writeAST[of ?src 12] by simp
  have v: "unat (numBlocks ?f1) = 1" "unat (numSamples ?f1) = 3" "unat (numChannels ?f1) = 2"
    "unat (padding ?f1) = 26" "unat (wavSize ?f1) = 14"
    "unat (numBlocks ?f2) = 1" "unat (numSamples ?f2) = 3" "unat (numChannels ?f2) = 2"
    "unat (padding ?f2) = 26" "unat (wavSize ?f2) = 12"
    by (simp_all add: ex_odd_final_def ex_odd_state_def)
  note t1 = body_size_and_header_field[OF g o1 w1]
  note t2 = body_size_and_header_field[OF g o2 w2]
  have l1: "length (printHeader ?f1 @ printAudio (heap ex_env2) ?src ?f1) = 64 + 96"
    using t1[THEN conjunct1] unfolding v by simp
  have h1: "unat (readBE32 (printHeader ?f1 @ printAudio (heap ex_env2) ?src ?f1) 4) = 98"
    using t1[THEN conjunct2, THEN conjunct1] unfolding v by simp
  have l2: "length (printHeader ?f2 @ printAudio (heap ex_env2) ?src ?f2) = 64 + 96"
    using t2[THEN conjunct1] unfolding v by simp
  have h2: "unat (readBE32 (printHeader ?f2 @ printAudio (heap ex_env2) ?src ?f2) 4) = 96"
    using t2[THEN conjunct2, THEN conjunct1] unfolding v by simp
  show ?thesis
    by (intro conjI g m o1 e1 w1 l1 h1 o2 e2 w2 l2 h2)
qed
text \<open>
  The header of \<open>ex_big\<close> announces \<open>0xFFFFFFFE\<close> bytes of mono data, so
  \<open>wavSize = numSamples * 2 * numChannels\<close>; the run writes 4308602144 bytes after the
  header, and the 32-bit field \<open>astSize\<close>, as the word at offset 0x04 of the header,
  holds 13634848.
\<close>

lemma ex_big_bytes:
  "ex_big = [82, 73, 70, 70, 255, 255, 255, 255, 87, 65, 86, 69, 102, 109, 116, 32, 16, 0, 0, 0,
             1, 0, 1, 0, 0, 125, 0, 0, 0, 250, 0, 0, 2, 0, 16, 0, 100, 97, 116, 97,
             254, 255, 255, 255, 1, 2]"
  by (simp add: ex_big_def bytes_of_def byte_of_char_def le32_def le16_def drop_bit_eq_div)

lemma ex_big_length: "length ex_big = 46"
  by (simp add: ex_big_bytes)

lemma ex_big_slices:
  "take 4 ex_big = [82, 73, 70, 70]"
  "take 4 (drop 8 ex_big) = [87, 65, 86, 69]"
  "take 4 (drop 12 ex_big) = [102, 109, 116, 32]"
  "take 4 (drop 16 ex_big) = [16, 0, 0, 0]"
  "take 2 (drop 20 ex_big) = [1, 0]"
  "take 2 (drop 22 ex_big) = [1, 0]"
  "take 4 (drop 24 ex_big) = [0, 125, 0, 0]"
  "take 2 (drop 34 ex_big) = [16, 0]"
  "take 4 (drop 36 ex_big) = [100, 97, 116, 97]"
  "take 4 (drop 40 ex_big) = [254, 255, 255, 255]"
  by (simp_all add: ex_big_bytes)

lemma ex_big_getWAVData:
  "getWAVData u \<lparr>contents = ex_big, pos = 0\<rparr> s =
     Some (Returned 0,
           s\<lparr>numChannels := 1, sampleRate := 32000, customSampleRate := 32000,
             wavSize := 4294967294, numSamples := 2147483647\<rparr>,
           \<lparr>contents = ex_big, pos = 44\<rparr>)"
proof -
  have r: "rd32 [254, 255, 255, 255] = 4294967294"
    by (simp add: rd32_def)
  have fmt: "findChunk [102, 109, 116, 32] \<lparr>contents = ex_big, pos = 12\<rparr>
               = Some (True, \<lparr>contents = ex_big, pos = 16\<rparr>)"
    by (subst findChunk.simps) (simp add: fread_full ex_big_length ex_big_slices)
  have data: "findChunk [100, 97, 116, 97] \<lparr>contents = ex_big, pos = 12\<rparr>
               = Some (True, \<lparr>contents = ex_big, pos = 40\<rparr>)"
    apply (subst findChunk.simps)
    apply (simp add: fread_full fread32_full ex_big_length ex_big_slices rd_values fseek_cur_def)
    apply (subst findChunk.simps)
    apply (simp add: fread_full fread32_full ex_big_length ex_big_slices rd_values fseek_cur_def)
    done
  have d: "(4294967294 :: u32) div 2 = 2147483647"
    by simp
  show ?thesis
    by (simp add: getWAVData_def fread_full fread16_full fread32_full fseek_set_def fseek_cur_def
        ex_big_length ex_big_slices rd_values r tag_bytes fmt data d)
qed

theorem header_field_wraps:
  "grabInfo ex_fpu ex_env ex_indet [''ASTCreate.exe'', ''big.wav''] =
     Some (Returned 0, ex_big_final,
           Some (''big.ast'',
                 printHeader ex_big_final
                 @ printAudio (heap ex_env) \<lparr>contents = ex_big, pos = 44\<rparr> ex_big_final))
   \<and> unat (wavSize ex_big_final)
       = unat (numSamples ex_big_final) * 2 * unat (numChannels ex_big_final)
   \<and> length (printHeader ex_big_final
              @ printAudio (heap ex_env) \<lparr>contents = ex_big, pos = 44\<rparr> ex_big_final) - 64
       = 4308602144
   \<and> unat (astSize ex_big_final) = 13634848
   \<and> unat (readBE32 (printHeader ex_big_final
                      @ printAudio (heap ex_env) \<lparr>contents = ex_big, pos = 44\<rparr> ex_big_final)
              4) = 13634848"
proof -
  define s1 where "s1 = (u_this ex_indet)\<lparr>isLooped := 65535, loopStart := 0,
                           filename := ''big.wav'', filename := ''big.ast''\<rparr>"
  define s2 where "s2 = ex_big_final\<lparr>astSize := 0, excBlkSz := 0, numBlocks := 0, padding := 0\<rparr>"
  have s: "s1\<lparr>numChannels := 1, sampleRate := 32000, customSampleRate := 32000,
              wavSize := 4294967294, numSamples := 2147483647\<rparr> = s2"
    by (simp add: ex_big_final_def s1_def s2_def ex_indet_def)
  have g: "getWAVData ex_indet \<lparr>contents = ex_big, pos = 0\<rparr> s1
             = Some (Returned 0, s2, \<lparr>contents = ex_big, pos = 44\<rparr>)"
    by (simp add: ex_big_getWAVData s)
  have o: "optLoop ex_fpu [''ASTCreate.exe'', ''big.wav''] 2 s2 = (Returned 0, s2)"
    by (subst optLoop.simps) simp
  have x: "wavExtension ''big.wav'' = Some 4"
    by (simp add: wavExtension_def)
  have f: "fopen_rb ex_env ''big.wav'' = Some ex_big"
    by (simp add: ex_env_def)
  have c: "calcBlocks s2 = ex_big_final"
    by (simp add: calcBlocks_def blockSize_def ex_big_final_def s2_def Let_def)
  have w: "writeAST ex_env \<lparr>contents = ex_big, pos = 44\<rparr> s2 =
     (0, ex_big_final,
      Some (''big.ast'', printHeader ex_big_final
            @ printAudio (heap ex_env) \<lparr>contents = ex_big, pos = 44\<rparr> ex_big_final))"
    unfolding writeAST_def c
    by (simp add: fixExtension_def fixLastBlock_def fixLoopStart_def
      dropLoop_def strcmpi_eq_def tolower_c_def blockSize_def ex_big_final_def
      ex_env_simps Let_def)
  have gi: "grabInfo ex_fpu ex_env ex_indet [''ASTCreate.exe'', ''big.wav''] =
     Some (Returned 0, ex_big_final,
           Some (''big.ast'', printHeader ex_big_final
                 @ printAudio (heap ex_env) \<lparr>contents = ex_big, pos = 44\<rparr> ex_big_final))"
    unfolding grabInfo_def Let_def
    by (simp add: f x s1_def[symmetric] g o w)
  have v: "unat (wavSize ex_big_final) = 4294967294" "unat (numBlocks ex_big_final) = 426089"
    "unat (padding ex_big_final) = 2" "unat (numChannels ex_big_final) = 1"
    "unat (numSamples ex_big_final) = 2147483647" "unat (astSize ex_big_final) = 13634848"
    "unat (excBlkSz ex_big_final) = 254"
    by (simp_all add: ex_big_final_def)
  have "length (printAudio (heap ex_env) \<lparr>contents = ex_big, pos = 44\<rparr> ex_big_final)
          = 4308602144"
    by (subst printAudio_length) (simp_all add: v)
  then show ?thesis
    using gi by (simp add: v printHeader_length header_astSize)
qed


section \<open>The contents of the blocks\<close>


lemma swapBlock_length [simp]: "length (swapBlock block n) = length block"
  by (simp add: swapBlock_def)
















section \<open>A source that is shorter than its header says\<close>










end
